theory Spec2Isabelle
  imports Complex_Main "HOL-Library.Product_Lexorder"
begin

section \<open>Data model of currency\_rates\_downloader.py\<close>

text \<open>
  A \<^verbatim>\<open>datetime.date\<close> has a year, a month and a day. Python compares dates
  field by field in that order, which is the lexicographic order on the triple.
\<close>

datatype date = Date (year: nat) (month: nat) (day: nat)

instantiation date :: linorder
begin

definition less_eq_date :: "date \<Rightarrow> date \<Rightarrow> bool" where
  "less_eq_date a b \<longleftrightarrow> (year a, month a, day a) \<le> (year b, month b, day b)"

definition less_date :: "date \<Rightarrow> date \<Rightarrow> bool" where
  "less_date a b \<longleftrightarrow> (year a, month a, day a) < (year b, month b, day b)"

instance
proof
  fix x y z :: date
  show "(x < y) = (x \<le> y \<and> \<not> y \<le> x)"
    unfolding less_eq_date_def less_date_def by (rule less_le_not_le)
  show "x \<le> x"
    unfolding less_eq_date_def by simp
  show "x \<le> y \<Longrightarrow> y \<le> z \<Longrightarrow> x \<le> z"
    unfolding less_eq_date_def by (rule order_trans)
  show "x \<le> y \<Longrightarrow> y \<le> x \<Longrightarrow> x = y"
  proof -
    assume "x \<le> y" and "y \<le> x"
    then have "(year x, month x, day x) = (year y, month y, day y)"
      unfolding less_eq_date_def by (rule order_antisym)
    then show "x = y" by (simp add: date.expand)
  qed
  show "x \<le> y \<or> y \<le> x"
    unfolding less_eq_date_def by (rule linear)
qed

end

text \<open>
  An \<^verbatim>\<open>xml.etree.ElementTree.Element\<close>: its tag, its attribute dictionary, its text
  (\<^verbatim>\<open>None\<close> for an element without text) and its child elements in document order.
\<close>

datatype element =
  Element (tag: string) (attrib: "(string \<times> string) list")
    (elem_text: "string option") (children: "element list")

text \<open>The two fields of a \<^verbatim>\<open>requests.Response\<close> that the script reads.\<close>

record response =
  status_code :: nat
  resp_text :: string

text \<open>The exceptions of \<^verbatim>\<open>requests\<close> that \<^verbatim>\<open>download_rates\<close> handles.\<close>

datatype requests_exception = Timeout | HTTPError nat | RequestException

text \<open>
  The exceptions that \<^verbatim>\<open>save_data\<close> can raise and that no handler in the script
  catches: \<^verbatim>\<open>ET.ParseError\<close>, \<^verbatim>\<open>KeyError\<close> (with the missing key),
  \<^verbatim>\<open>AttributeError\<close> (\<^verbatim>\<open>None.replace\<close>), \<^verbatim>\<open>ValueError\<close>
  (\<^verbatim>\<open>strptime\<close>, \<^verbatim>\<open>float\<close>) and a \<^verbatim>\<open>psycopg2\<close> error.
\<close>

datatype py_error = ParseError | KeyError string | AttributeError | ValueError | DatabaseError

text \<open>
  The fourth parameter of \<^verbatim>\<open>f_crncy_downldr_save_rate\<close>: the text of the
  \<^verbatim>\<open>Nominal\<close> child for the Central Bank of Russia, the integer literal for
  the National Bank of Ukraine.
\<close>

datatype nominal = NominalText "string option" | NominalInt int

text \<open>
  The two statements \<^verbatim>\<open>save_data\<close> executes on the module-level cursor
  \<^verbatim>\<open>cur\<close>. \<^verbatim>\<open>SaveRate\<close> carries the five parameters of the call; the
  type \<open>'f\<close> stands for Python's \<^verbatim>\<open>float\<close>.
\<close>

datatype 'f stmt = SaveRate int "string option" date nominal 'f | Commit

text \<open>
  What the script does to the outside world, in the order it does it: an HTTP GET of a
  URL with a timeout, and a statement executed on the cursor. A call is recorded when it
  is made, whether it returns or raises.
\<close>

datatype 'f event = is_Get: Get string nat | is_Execute: Execute "'f stmt"

text \<open>
  The library and the outside world. \<^verbatim>\<open>requests.get\<close> and \<^verbatim>\<open>cur.execute\<close>
  answer depending on all calls made so far (the first argument); \<^verbatim>\<open>cur.execute\<close>
  answers \<open>False\<close> when it raises. \<^verbatim>\<open>ET.fromstring\<close>, \<^verbatim>\<open>strptime\<close> with
  the format \<^verbatim>\<open>%d.%m.%Y\<close> followed by \<^verbatim>\<open>.date()\<close>, and \<^verbatim>\<open>float\<close> are
  functions of their argument and answer \<open>None\<close> when they raise.
\<close>

record 'f world =
  requests_get :: "'f event list \<Rightarrow> string \<Rightarrow> nat \<Rightarrow> requests_exception + response"
  cur_execute :: "'f event list \<Rightarrow> 'f stmt \<Rightarrow> bool"
  ET_fromstring :: "string \<Rightarrow> element option"
  strptime :: "string \<Rightarrow> date option"
  py_float :: "string \<Rightarrow> 'f option"

section \<open>Strings\<close>

definition nl :: string where
  "nl = [CHR 0x0A]"

text \<open>\<^verbatim>\<open>'{}'.format(v)\<close> for a value that is a string or \<^verbatim>\<open>None\<close>.\<close>

definition py_str :: "string option \<Rightarrow> string" where
  "py_str v = (case v of None \<Rightarrow> ''None'' | Some s \<Rightarrow> s)"

text \<open>\<^verbatim>\<open>s.replace(',', '.')\<close>\<close>

definition replace_comma :: "string \<Rightarrow> string" where
  "replace_comma s = map (\<lambda>c. if c = CHR '','' then CHR ''.'' else c) s"

definition digit :: "nat \<Rightarrow> char" where
  "digit n = ''0123456789'' ! (n mod 10)"

fun decimal :: "nat \<Rightarrow> string" where
  "decimal n = (if n < 10 then [digit n] else decimal (n div 10) @ [digit n])"

declare decimal.simps [simp del]

definition zero_pad :: "nat \<Rightarrow> nat \<Rightarrow> string" where
  "zero_pad k n = replicate (k - length (decimal n)) (CHR ''0'') @ decimal n"

text \<open>\<^verbatim>\<open>'{}'.format(date)\<close>: the ISO form \<^verbatim>\<open>YYYY-MM-DD\<close>.\<close>

definition date_str :: "date \<Rightarrow> string" where
  "date_str d = zero_pad 4 (year d) @ ''-'' @ zero_pad 2 (month d) @ ''-'' @ zero_pad 2 (day d)"

section \<open>save\_data\<close>

text \<open>\<^verbatim>\<open>d[k]\<close> on a dictionary: \<^verbatim>\<open>KeyError\<close> when the key is missing.\<close>

definition getitem :: "(string \<rightharpoonup> 'v) \<Rightarrow> string \<Rightarrow> py_error + 'v" where
  "getitem d k = (case d k of None \<Rightarrow> Inl (KeyError k) | Some v \<Rightarrow> Inr v)"

text \<open>
  \<^verbatim>\<open>for detail in currency: crncy[detail.tag] = detail.text\<close>: a later child
  overwrites an earlier one with the same tag.
\<close>

definition fill_crncy ::
  "(string \<rightharpoonup> string option) \<Rightarrow> element list \<Rightarrow> (string \<rightharpoonup> string option)" where
  "fill_crncy crncy details =
     foldl (\<lambda>m detail. m(tag detail \<mapsto> elem_text detail)) crncy details"

text \<open>\<^verbatim>\<open>float(v.replace(',', '.'))\<close> for a dictionary value \<open>v\<close>.\<close>

definition float_of_text :: "'f world \<Rightarrow> string option \<Rightarrow> py_error + 'f" where
  "float_of_text w v =
     (case v of
        None \<Rightarrow> Inl AttributeError
      | Some s \<Rightarrow>
          (case py_float w (replace_comma s) of
             None \<Rightarrow> Inl ValueError
           | Some f \<Rightarrow> Inr f))"

text \<open>
  The two calls \<^verbatim>\<open>cur.execute("SELECT * FROM currency.f_crncy_downldr_save_rate(...)", ...)\<close>
  and \<^verbatim>\<open>cur.execute("COMMIT")\<close>. Every function below takes the calls made so far
  (\<open>hist\<close>) and returns its result together with the calls it made itself.
\<close>

definition save_rate ::
  "'f world \<Rightarrow> 'f event list \<Rightarrow> 'f stmt \<Rightarrow> (py_error + unit) \<times> 'f event list" where
  "save_rate w hist st =
     (if \<not> cur_execute w hist st then (Inl DatabaseError, [Execute st])
      else if \<not> cur_execute w (hist @ [Execute st]) Commit
        then (Inl DatabaseError, [Execute st, Execute Commit])
      else (Inr (), [Execute st, Execute Commit]))"

text \<open>Lines 202 to 222: the body of the innermost \<^verbatim>\<open>if\<close> of the branch for id 2.\<close>

definition persist_cbr ::
  "'f world \<Rightarrow> 'f event list \<Rightarrow> int \<Rightarrow> date \<Rightarrow> string \<Rightarrow> element
     \<Rightarrow> (py_error + string) \<times> 'f event list" where
  "persist_cbr w hist var_in_crncy_id date cid currency =
     (let crncy = fill_crncy [''Identificator'' \<mapsto> Some cid] (children currency) in
      (case getitem crncy ''Identificator'' of
         Inl e \<Rightarrow> (Inl e, [])
       | Inr ident \<Rightarrow>
      (case getitem crncy ''Nominal'' of
         Inl e \<Rightarrow> (Inl e, [])
       | Inr nom \<Rightarrow>
      (case getitem crncy ''Value'' of
         Inl e \<Rightarrow> (Inl e, [])
       | Inr val \<Rightarrow>
      (case float_of_text w val of
         Inl e \<Rightarrow> (Inl e, [])
       | Inr f \<Rightarrow>
      (case save_rate w hist (SaveRate var_in_crncy_id ident date (NominalText nom) f) of
         (Inl e, evs) \<Rightarrow> (Inl e, evs)
       | (Inr u, evs) \<Rightarrow>
      (case getitem crncy ''CharCode'' of
         Inl e \<Rightarrow> (Inl e, evs)
       | Inr cc \<Rightarrow>
           (Inr (py_str cc @ '': '' @ py_str val @ ''/'' @ py_str nom @ nl), evs))))))))"

text \<open>Lines 229 to 245: the body of the \<^verbatim>\<open>if\<close> of the other branch.\<close>

definition persist_nbu ::
  "'f world \<Rightarrow> 'f event list \<Rightarrow> int \<Rightarrow> date \<Rightarrow> string
     \<Rightarrow> (string \<rightharpoonup> string option) \<Rightarrow> (py_error + string) \<times> 'f event list" where
  "persist_nbu w hist var_in_crncy_id date code crncy =
     (case getitem crncy ''rate'' of
        Inl e \<Rightarrow> (Inl e, [])
      | Inr rate \<Rightarrow>
     (case float_of_text w rate of
        Inl e \<Rightarrow> (Inl e, [])
      | Inr f \<Rightarrow>
     (case save_rate w hist (SaveRate var_in_crncy_id (Some code) date (NominalInt 1) f) of
        (Inl e, evs) \<Rightarrow> (Inl e, evs)
      | (Inr u, evs) \<Rightarrow>
     (case getitem crncy ''cc'' of
        Inl e \<Rightarrow> (Inl e, evs)
      | Inr cc \<Rightarrow>
          (Inr (py_str cc @ '': '' @ py_str rate @ ''/'' @ ''1'' @ nl), evs)))))"

text \<open>
  Lines 192 to 245: the body of \<^verbatim>\<open>for currency in root\<close> (the variable
  \<^verbatim>\<open>root\<close> is \<open>xml_root\<close> here). The result is the text appended to
  \<^verbatim>\<open>email_body_date\<close>, empty when the entry is passed over. The keys of
  \<^verbatim>\<open>crncy_list\<close> are strings, so an \<^verbatim>\<open>r030\<close> child without text, whose
  value is \<^verbatim>\<open>None\<close>, is not among them.
\<close>

definition save_currency ::
  "'f world \<Rightarrow> 'f event list \<Rightarrow> date \<Rightarrow> element \<Rightarrow> int \<Rightarrow> (string \<rightharpoonup> date) \<Rightarrow> element
     \<Rightarrow> (py_error + string) \<times> 'f event list" where
  "save_currency w hist date xml_root var_in_crncy_id crncy_list currency =
     (if var_in_crncy_id = 2 then
        (case getitem (map_of (attrib currency)) ''ID'' of
           Inl e \<Rightarrow> (Inl e, [])
         | Inr cid \<Rightarrow>
             (case crncy_list cid of
                None \<Rightarrow> (Inr [], [])
              | Some last_date \<Rightarrow>
                  if \<not> last_date < date then (Inr [], [])
                  else
                    (case getitem (map_of (attrib xml_root)) ''Date'' of
                       Inl e \<Rightarrow> (Inl e, [])
                     | Inr ds \<Rightarrow>
                         (case strptime w ds of
                            None \<Rightarrow> (Inl ValueError, [])
                          | Some doc_date \<Rightarrow>
                              if date = doc_date
                              then persist_cbr w hist var_in_crncy_id date cid currency
                              else (Inr [], [])))))
      else
        (let crncy = fill_crncy Map.empty (children currency) in
         case getitem crncy ''r030'' of
           Inl e \<Rightarrow> (Inl e, [])
         | Inr None \<Rightarrow> (Inr [], [])
         | Inr (Some code) \<Rightarrow>
             (case crncy_list code of
                None \<Rightarrow> (Inr [], [])
              | Some last_date \<Rightarrow>
                  if last_date < date then persist_nbu w hist var_in_crncy_id date code crncy
                  else (Inr [], []))))"

text \<open>The loop \<^verbatim>\<open>for currency in root\<close>, with its accumulator.\<close>

fun save_data_loop ::
  "'f world \<Rightarrow> 'f event list \<Rightarrow> date \<Rightarrow> element \<Rightarrow> int \<Rightarrow> (string \<rightharpoonup> date)
     \<Rightarrow> element list \<Rightarrow> string \<Rightarrow> (py_error + string) \<times> 'f event list" where
  "save_data_loop w hist date xml_root var_in_crncy_id crncy_list [] email_body_date =
     (Inr email_body_date, [])"
| "save_data_loop w hist date xml_root var_in_crncy_id crncy_list (currency # rest) email_body_date =
     (case save_currency w hist date xml_root var_in_crncy_id crncy_list currency of
        (Inl e, evs) \<Rightarrow> (Inl e, evs)
      | (Inr line, evs) \<Rightarrow>
          (case save_data_loop w (hist @ evs) date xml_root var_in_crncy_id crncy_list rest
                  (email_body_date @ line) of
             (r, evs') \<Rightarrow> (r, evs @ evs')))"

definition save_data ::
  "'f world \<Rightarrow> 'f event list \<Rightarrow> date \<Rightarrow> response \<Rightarrow> int \<Rightarrow> (string \<rightharpoonup> date)
     \<Rightarrow> (py_error + string) \<times> 'f event list" where
  "save_data w hist date resp var_in_crncy_id crncy_list =
     (case ET_fromstring w (resp_text resp) of
        None \<Rightarrow> (Inl ParseError, [])
      | Some xml_root \<Rightarrow>
          save_data_loop w hist date xml_root var_in_crncy_id crncy_list (children xml_root) [])"

section \<open>download\_rates\<close>

text \<open>
  \<^verbatim>\<open>requests.get(url, timeout=30)\<close> followed by \<^verbatim>\<open>response.raise_for_status()\<close>,
  which raises \<^verbatim>\<open>HTTPError\<close> for a status from 400 to 599.
\<close>

definition fetch :: "'f world \<Rightarrow> 'f event list \<Rightarrow> string \<Rightarrow> requests_exception + response" where
  "fetch w hist url =
     (case requests_get w hist url 30 of
        Inl exc \<Rightarrow> Inl exc
      | Inr resp \<Rightarrow>
          if 400 \<le> status_code resp \<and> status_code resp < 600
          then Inl (HTTPError (status_code resp))
          else Inr resp)"

definition header :: "int \<Rightarrow> string" where
  "header var_in_crncy_id =
     (if var_in_crncy_id = 2 then ''Downloaded exchange rates from CBR:'' @ nl @ nl
      else ''Downloaded exchange rates from NBU :'' @ nl @ nl)"

definition date_section :: "date \<Rightarrow> string \<Rightarrow> string" where
  "date_section date email_body_date =
     ''***** Exchange rates on date '' @ date_str date @ '' *****'' @ nl @ email_body_date @ nl"

text \<open>
  The loop over \<^verbatim>\<open>url_list.items()\<close>, with its two accumulators. The three handlers
  only print, so after any of them \<^verbatim>\<open>email_body_date\<close> is still empty and nothing
  is appended. An exception of \<^verbatim>\<open>save_data\<close> is raised in the \<^verbatim>\<open>else\<close>
  clause of the \<^verbatim>\<open>try\<close>, where no handler applies.
\<close>

fun download_rates_loop ::
  "'f world \<Rightarrow> 'f event list \<Rightarrow> int \<Rightarrow> (string \<rightharpoonup> date) \<Rightarrow> (date \<times> string) list
     \<Rightarrow> bool \<Rightarrow> string \<Rightarrow> (py_error + bool \<times> string) \<times> 'f event list" where
  "download_rates_loop w hist var_in_crncy_id crncy_list [] has_result_to_send email_body =
     (Inr (has_result_to_send, email_body), [])"
| "download_rates_loop w hist var_in_crncy_id crncy_list ((date, url) # rest)
       has_result_to_send email_body =
     (case fetch w hist url of
        Inl exc \<Rightarrow>
          (case download_rates_loop w (hist @ [Get url 30]) var_in_crncy_id crncy_list rest
                  has_result_to_send email_body of
             (r, evs') \<Rightarrow> (r, Get url 30 # evs'))
      | Inr resp \<Rightarrow>
          (case save_data w (hist @ [Get url 30]) date resp var_in_crncy_id crncy_list of
             (Inl e, evs) \<Rightarrow> (Inl e, Get url 30 # evs)
           | (Inr email_body_date, evs) \<Rightarrow>
               (case
                  (if email_body_date \<noteq> []
                   then download_rates_loop w (hist @ Get url 30 # evs) var_in_crncy_id
                          crncy_list rest True (email_body @ date_section date email_body_date)
                   else download_rates_loop w (hist @ Get url 30 # evs) var_in_crncy_id
                          crncy_list rest has_result_to_send email_body) of
                  (r, evs') \<Rightarrow> (r, Get url 30 # evs @ evs'))))"

text \<open>
  \<^verbatim>\<open>url_list\<close> is the dictionary from dates to URLs in its iteration order,
  \<^verbatim>\<open>crncy_list\<close> the dictionary from currency identifiers to the latest date
  already stored.
\<close>

definition download_rates ::
  "'f world \<Rightarrow> 'f event list \<Rightarrow> (date \<times> string) list \<Rightarrow> (string \<rightharpoonup> date) \<Rightarrow> int
     \<Rightarrow> (py_error + bool \<times> string) \<times> 'f event list" where
  "download_rates w hist url_list crncy_list var_in_crncy_id =
     download_rates_loop w hist var_in_crncy_id crncy_list url_list False
       (header var_in_crncy_id)"

section \<open>The main block\<close>

text \<open>Lines 325 to 331: forming the email body from the two results.\<close>

definition form_email_body :: "bool \<Rightarrow> string \<Rightarrow> bool \<Rightarrow> string \<Rightarrow> string" where
  "form_email_body cbr_has_result_to_send email_body_cbr nbu_has_result_to_send email_body_nbu =
     (if cbr_has_result_to_send \<and> \<not> nbu_has_result_to_send then [] @ email_body_cbr
      else if cbr_has_result_to_send \<and> nbu_has_result_to_send
        then email_body_cbr @ nl @ nl @ email_body_nbu
      else if \<not> cbr_has_result_to_send \<and> nbu_has_result_to_send then [] @ email_body_nbu
      else [])"

text \<open>Line 334: \<^verbatim>\<open>send_email\<close> is called only for a non-empty body.\<close>

definition sends_email :: "string \<Rightarrow> bool" where
  "sends_email email_body = (email_body \<noteq> [])"

section \<open>Observing a run\<close>

text \<open>
  The (currency code, date) pairs of the rates a sequence of calls saves, one per call of
  \<^verbatim>\<open>f_crncy_downldr_save_rate\<close>, in order.
\<close>

fun saved_pair :: "'f event \<Rightarrow> (string option \<times> date) list" where
  "saved_pair (Execute (SaveRate v code d n f)) = [(code, d)]"
| "saved_pair (Execute Commit) = []"
| "saved_pair (Get url timeout) = []"

definition saved_pairs :: "'f event list \<Rightarrow> (string option \<times> date) list" where
  "saved_pairs evs = concat (map saved_pair evs)"

text \<open>
  The currency code under which \<^verbatim>\<open>save_data\<close> saves an entry: the value of
  \<^verbatim>\<open>crncy['Identificator']\<close> for id 2 and of \<^verbatim>\<open>crncy['r030']\<close> otherwise;
  \<open>None\<close> for an entry that has no such value.
\<close>

definition entry_code :: "int \<Rightarrow> element \<Rightarrow> string option option" where
  "entry_code var_in_crncy_id currency =
     (if var_in_crncy_id = 2 then
        (case map_of (attrib currency) ''ID'' of
           None \<Rightarrow> None
         | Some cid \<Rightarrow>
             fill_crncy [''Identificator'' \<mapsto> Some cid] (children currency) ''Identificator'')
      else fill_crncy Map.empty (children currency) ''r030'')"

section \<open>Examples\<close>

text \<open>
  Two documents of the Central Bank of Russia (the second lists the same currency twice)
  and an entry without \<^verbatim>\<open>CharCode\<close>, two documents of the National Bank of Ukraine
  (the second has an entry without \<^verbatim>\<open>r030\<close>), and a world that serves them, accepts
  every statement, answers 404 for one URL, sends text that is not XML for another and
  times out for every other URL.
\<close>

definition usd_valute :: element where
  "usd_valute = Element ''Valute'' [(''ID'', ''840'')] None
     [Element ''CharCode'' [] (Some ''USD'') [],
      Element ''Nominal'' [] (Some ''1'') [],
      Element ''Value'' [] (Some ''90,5000'') []]"

definition cbr_doc :: element where
  "cbr_doc = Element ''ValCurs'' [(''Date'', ''10.01.2024'')] None [usd_valute]"

definition cbr_twice_doc :: element where
  "cbr_twice_doc =
     Element ''ValCurs'' [(''Date'', ''10.01.2024'')] None [usd_valute, usd_valute]"

definition usd_currency :: element where
  "usd_currency = Element ''currency'' [] None
     [Element ''r030'' [] (Some ''840'') [],
      Element ''rate'' [] (Some ''37,5'') [],
      Element ''cc'' [] (Some ''USD'') []]"

definition nbu_doc :: element where
  "nbu_doc = Element ''exchange'' [] None [usd_currency]"

definition no_code_currency :: element where
  "no_code_currency = Element ''currency'' [] None
     [Element ''rate'' [] (Some ''37,5'') [],
      Element ''cc'' [] (Some ''USD'') []]"

definition no_charcode_valute :: element where
  "no_charcode_valute = Element ''Valute'' [(''ID'', ''840'')] None
     [Element ''Nominal'' [] (Some ''1'') [],
      Element ''Value'' [] (Some ''90,5000'') []]"

definition no_code_doc :: element where
  "no_code_doc = Element ''exchange'' [] None [no_code_currency]"

definition example_world :: "rat world" where
  "example_world =
     \<lparr> requests_get = (\<lambda>hist url timeout.
          if url = ''cbr'' then Inr \<lparr>status_code = 200, resp_text = ''<ValCurs>''\<rparr>
          else if url = ''nbu'' then Inr \<lparr>status_code = 200, resp_text = ''<exchange>''\<rparr>
          else if url = ''nocode'' then Inr \<lparr>status_code = 200, resp_text = ''<nocode>''\<rparr>
          else if url = ''broken'' then Inr \<lparr>status_code = 200, resp_text = ''<''\<rparr>
          else if url = ''missing'' then Inr \<lparr>status_code = 404, resp_text = []\<rparr>
          else Inl Timeout),
       cur_execute = (\<lambda>hist st. True),
       ET_fromstring = map_of [(''<ValCurs>'', cbr_doc), (''<exchange>'', nbu_doc), (''<nocode>'', no_code_doc)],
       strptime = map_of [(''10.01.2024'', Date 2024 1 10)],
       py_float = map_of [(''90.5000'', 181 / 2), (''37.5'', 75 / 2)] \<rparr>"

definition failing_db_world :: "rat world" where
  "failing_db_world = example_world\<lparr>cur_execute := (\<lambda>hist st. False)\<rparr>"

definition twice_world :: "rat world" where
  "twice_world = example_world\<lparr>ET_fromstring := map_of [(''<ValCurs>'', cbr_twice_doc)]\<rparr>"

lemmas example_defs =
  example_world_def usd_valute_def cbr_doc_def usd_currency_def nbu_doc_def
  no_code_currency_def no_code_doc_def no_charcode_valute_def failing_db_world_def
  cbr_twice_doc_def twice_world_def

lemmas run_defs =
  download_rates_def fetch_def save_data_def save_currency_def persist_cbr_def persist_nbu_def
  save_rate_def getitem_def fill_crncy_def float_of_text_def replace_comma_def py_str_def
  header_def date_section_def date_str_def zero_pad_def digit_def nl_def less_date_def

section \<open>Auxiliary facts\<close>

subsection \<open>Dictionaries and the two saving blocks\<close>

lemma dom_fill_crncy: "dom (fill_crncy m ds) = dom m \<union> tag ` set ds"
  unfolding fill_crncy_def
  by (induction ds arbitrary: m) auto

lemma fill_crncy_absent:
  "k \<notin> tag ` set ds \<Longrightarrow> fill_crncy m ds k = m k"
  unfolding fill_crncy_def
  by (induction ds arbitrary: m) auto

lemma save_rate_cases:
  "save_rate w hist st = (r, evs) \<Longrightarrow>
     (r = Inr () \<and> evs = [Execute st, Execute Commit])
     \<or> (r = Inl DatabaseError \<and> (evs = [Execute st] \<or> evs = [Execute st, Execute Commit]))"
  by (auto simp: save_rate_def split: if_splits)

lemma persist_cbr_not_silent:
  "persist_cbr w hist v date cid currency \<noteq> (Inr [], [])"
  by (auto simp: persist_cbr_def Let_def split: sum.splits prod.splits dest: save_rate_cases)

lemma persist_nbu_not_silent:
  "persist_nbu w hist v date code crncy \<noteq> (Inr [], [])"
  by (auto simp: persist_nbu_def split: sum.splits prod.splits dest: save_rate_cases)

lemma persist_cbr_events:
  "persist_cbr w h v date cid c = (r, evs) \<Longrightarrow>
     (evs = [] \<and> (\<exists>e. r = Inl e))
     \<or> (\<exists>ident nom f tl.
           fill_crncy [''Identificator'' \<mapsto> Some cid] (children c) ''Identificator'' = Some ident
           \<and> evs = Execute (SaveRate v ident date (NominalText nom) f) # tl
           \<and> (tl = [] \<or> tl = [Execute Commit])
           \<and> (\<forall>line. r = Inr line \<longrightarrow> line \<noteq> []))"
  by (auto simp: persist_cbr_def Let_def getitem_def nl_def
      split: sum.splits prod.splits option.splits dest!: save_rate_cases)

lemma persist_nbu_events:
  "persist_nbu w h v date code crncy = (r, evs) \<Longrightarrow>
     (evs = [] \<and> (\<exists>e. r = Inl e))
     \<or> (\<exists>f tl.
           evs = Execute (SaveRate v (Some code) date (NominalInt 1) f) # tl
           \<and> (tl = [] \<or> tl = [Execute Commit])
           \<and> (\<forall>line. r = Inr line \<longrightarrow> line \<noteq> []))"
  by (auto simp: persist_nbu_def Let_def getitem_def nl_def
      split: sum.splits prod.splits option.splits dest!: save_rate_cases)

lemma persist_nbu_line:
  "persist_nbu w h v date code crncy = (Inr line, evs) \<Longrightarrow>
     \<exists>cc rate. crncy ''cc'' = Some cc \<and> crncy ''rate'' = Some (Some rate)
       \<and> line = py_str cc @ '': '' @ rate @ ''/1'' @ [CHR 0x0A]"
  by (auto simp: persist_nbu_def getitem_def float_of_text_def py_str_def nl_def
      split: sum.splits prod.splits option.splits)

subsection \<open>One entry\<close>

lemma save_currency_events:
  assumes "save_currency w h date xml_root v cl c = (r, evs)"
  shows "(evs = [] \<and> (r = Inr [] \<or> (\<exists>e. r = Inl e)))
     \<or> (\<exists>code nom f tl.
           entry_code v c = Some code
           \<and> (v \<noteq> 2 \<longrightarrow> nom = NominalInt 1)
           \<and> evs = Execute (SaveRate v code date nom f) # tl
           \<and> (tl = [] \<or> tl = [Execute Commit])
           \<and> (\<forall>line. r = Inr line \<longrightarrow> line \<noteq> []))"
proof (cases "v = 2")
  case True
  show ?thesis
  proof (cases "\<exists>cid. map_of (attrib c) ''ID'' = Some cid
                  \<and> save_currency w h date xml_root v cl c = persist_cbr w h v date cid c")
    case True
    then obtain cid where cid: "map_of (attrib c) ''ID'' = Some cid"
      and eq: "persist_cbr w h v date cid c = (r, evs)"
      using assms by auto
    from persist_cbr_events[OF eq] cid \<open>v = 2\<close> show ?thesis
      by (auto simp: entry_code_def)
  next
    case False
    with assms \<open>v = 2\<close> show ?thesis
      by (auto simp: save_currency_def getitem_def split: option.splits if_splits)
  qed
next
  case False
  show ?thesis
  proof (cases "\<exists>code. fill_crncy Map.empty (children c) ''r030'' = Some (Some code)
                  \<and> save_currency w h date xml_root v cl c
                      = persist_nbu w h v date code (fill_crncy Map.empty (children c))")
    case True
    then obtain code where code: "fill_crncy Map.empty (children c) ''r030'' = Some (Some code)"
      and eq: "persist_nbu w h v date code (fill_crncy Map.empty (children c)) = (r, evs)"
      using assms by auto
    from persist_nbu_events[OF eq] code \<open>v \<noteq> 2\<close> show ?thesis
      by (auto simp: entry_code_def)
  next
    case False
    with assms \<open>v \<noteq> 2\<close> show ?thesis
      by (auto simp: save_currency_def getitem_def Let_def split: option.splits if_splits)
  qed
qed

lemma saved_pairs_simps [simp]:
  "saved_pairs [] = []"
  "saved_pairs (e # evs) = saved_pair e @ saved_pairs evs"
  "saved_pairs (evs @ evs') = saved_pairs evs @ saved_pairs evs'"
  by (simp_all add: saved_pairs_def)

lemma save_currency_saved_pairs:
  assumes "save_currency w h date xml_root v cl c = (r, evs)"
  shows "(saved_pairs evs = [] \<and> (\<forall>line. r = Inr line \<longrightarrow> line = [] \<and> evs = []))
         \<or> (\<exists>code. entry_code v c = Some code \<and> saved_pairs evs = [(code, date)])"
  using save_currency_events[OF assms] by auto

lemma save_currency_no_get:
  "list_all (\<lambda>e. \<not> is_Get e) (snd (save_currency w h date xml_root v cl c))"
proof -
  obtain r evs where sc: "save_currency w h date xml_root v cl c = (r, evs)"
    by (cases "save_currency w h date xml_root v cl c")
  from save_currency_events[OF sc] show ?thesis
    unfolding sc by auto
qed

lemma cbr_entry_other_date:
  assumes "\<not> (\<exists>ds. map_of (attrib xml_root) ''Date'' = Some ds \<and> strptime w ds = Some date)"
  shows "snd (save_currency w h date xml_root 2 cl c) = []
         \<and> (\<forall>line. fst (save_currency w h date xml_root 2 cl c) = Inr line \<longrightarrow> line = [])"
  using assms
  by (simp add: save_currency_def getitem_def split: option.splits)


lemma save_currency_nbu_line:
  assumes "v \<noteq> 2" and "save_currency w h date xml_root v cl c = (Inr line, evs)"
  shows "line = []
     \<or> (\<exists>cc rate. fill_crncy Map.empty (children c) ''cc'' = Some cc
           \<and> fill_crncy Map.empty (children c) ''rate'' = Some (Some rate)
           \<and> line = py_str cc @ '': '' @ rate @ ''/1'' @ [CHR 0x0A])"
  using assms
  by (auto simp: save_currency_def getitem_def Let_def
      split: option.splits if_splits dest!: persist_nbu_line)

lemma save_currency_nbu_nominal:
  assumes "v \<noteq> 2"
  shows "list_all (\<lambda>e. \<forall>v' code d n f. e = Execute (SaveRate v' code d n f) \<longrightarrow> n = NominalInt 1)
           (snd (save_currency w h date xml_root v cl c))"
proof -
  obtain r evs where sc: "save_currency w h date xml_root v cl c = (r, evs)"
    by (cases "save_currency w h date xml_root v cl c")
  from save_currency_events[OF sc] assms show ?thesis
    unfolding sc by auto
qed

lemma cbr_missing_Date:
  assumes "map_of (attrib c) ''ID'' = Some cid" "cl cid = Some last_date" "last_date < date"
    and "map_of (attrib xml_root) ''Date'' = None"
  shows "save_currency w h date xml_root 2 cl c = (Inl (KeyError ''Date''), [])"
  using assms by (simp add: save_currency_def getitem_def)

lemma cbr_passes_filter:
  assumes "map_of (attrib c) ''ID'' = Some cid" "cl cid = Some last_date" "last_date < date"
    and "map_of (attrib xml_root) ''Date'' = Some ds" "strptime w ds = Some date"
  shows "save_currency w h date xml_root 2 cl c = persist_cbr w h 2 date cid c"
  using assms by (simp add: save_currency_def getitem_def)

lemma persist_cbr_missing_Nominal:
  assumes "''Nominal'' \<notin> tag ` set (children c)"
  shows "persist_cbr w h v date cid c = (Inl (KeyError ''Nominal''), [])"
proof -
  have "fill_crncy [''Identificator'' \<mapsto> Some cid] (children c) ''Nominal'' = None"
    using assms by (simp add: fill_crncy_absent)
  moreover have "fill_crncy [''Identificator'' \<mapsto> Some cid] (children c) ''Identificator'' \<noteq> None"
    using dom_fill_crncy[of "[''Identificator'' \<mapsto> Some cid]" "children c"] by auto
  ultimately show ?thesis
    by (auto simp: persist_cbr_def Let_def getitem_def split: option.splits)
qed

lemma persist_cbr_missing_Value:
  assumes "''Nominal'' \<in> tag ` set (children c)" "''Value'' \<notin> tag ` set (children c)"
  shows "persist_cbr w h v date cid c = (Inl (KeyError ''Value''), [])"
proof -
  have "fill_crncy [''Identificator'' \<mapsto> Some cid] (children c) ''Value'' = None"
    using assms by (simp add: fill_crncy_absent)
  moreover have "fill_crncy [''Identificator'' \<mapsto> Some cid] (children c) ''Identificator'' \<noteq> None"
    using dom_fill_crncy[of "[''Identificator'' \<mapsto> Some cid]" "children c"] by auto
  moreover have "fill_crncy [''Identificator'' \<mapsto> Some cid] (children c) ''Nominal'' \<noteq> None"
    using dom_fill_crncy[of "[''Identificator'' \<mapsto> Some cid]" "children c"] assms(1) by auto
  ultimately show ?thesis
    by (auto simp: persist_cbr_def Let_def getitem_def split: option.splits)
qed

lemma persist_cbr_missing_CharCode:
  assumes "fill_crncy [''Identificator'' \<mapsto> Some cid] (children c) ''Identificator'' = Some ident"
    and "fill_crncy [''Identificator'' \<mapsto> Some cid] (children c) ''Nominal'' = Some nom"
    and "fill_crncy [''Identificator'' \<mapsto> Some cid] (children c) ''Value'' = Some (Some val)"
    and "py_float w (replace_comma val) = Some f"
    and "cur_execute w h (SaveRate v ident date (NominalText nom) f)"
    and "cur_execute w (h @ [Execute (SaveRate v ident date (NominalText nom) f)]) Commit"
    and "''CharCode'' \<notin> tag ` set (children c)"
  shows "persist_cbr w h v date cid c =
           (Inl (KeyError ''CharCode''),
            [Execute (SaveRate v ident date (NominalText nom) f), Execute Commit])"
proof -
  have "fill_crncy [''Identificator'' \<mapsto> Some cid] (children c) ''CharCode'' = None"
    using assms(7) by (simp add: fill_crncy_absent)
  with assms(1-6) show ?thesis
    by (simp add: persist_cbr_def Let_def getitem_def float_of_text_def save_rate_def)
qed

lemma nbu_missing_r030:
  assumes "v \<noteq> 2" "''r030'' \<notin> tag ` set (children c)"
  shows "save_currency w h date xml_root v cl c = (Inl (KeyError ''r030''), [])"
proof -
  have "fill_crncy Map.empty (children c) ''r030'' = None"
    using assms(2) by (simp add: fill_crncy_absent)
  with assms(1) show ?thesis
    by (simp add: save_currency_def Let_def getitem_def)
qed

lemma nbu_passes_filter:
  assumes "v \<noteq> 2" "fill_crncy Map.empty (children c) ''r030'' = Some (Some code)"
    and "cl code = Some last_date" "last_date < date"
  shows "save_currency w h date xml_root v cl c
           = persist_nbu w h v date code (fill_crncy Map.empty (children c))"
  using assms by (simp add: save_currency_def Let_def getitem_def)

lemma persist_nbu_missing_rate:
  assumes "''rate'' \<notin> tag ` set (children c)"
  shows "persist_nbu w h v date code (fill_crncy Map.empty (children c))
           = (Inl (KeyError ''rate''), [])"
proof -
  have "fill_crncy Map.empty (children c) ''rate'' = None"
    using assms by (simp add: fill_crncy_absent)
  then show ?thesis
    by (simp add: persist_nbu_def getitem_def)
qed

lemma persist_nbu_missing_cc:
  assumes "fill_crncy Map.empty (children c) ''rate'' = Some (Some rate)"
    and "py_float w (replace_comma rate) = Some f"
    and "cur_execute w h (SaveRate v (Some code) date (NominalInt 1) f)"
    and "cur_execute w (h @ [Execute (SaveRate v (Some code) date (NominalInt 1) f)]) Commit"
    and "''cc'' \<notin> tag ` set (children c)"
  shows "persist_nbu w h v date code (fill_crncy Map.empty (children c)) =
           (Inl (KeyError ''cc''),
            [Execute (SaveRate v (Some code) date (NominalInt 1) f), Execute Commit])"
proof -
  have "fill_crncy Map.empty (children c) ''cc'' = None"
    using assms(5) by (simp add: fill_crncy_absent)
  with assms(1-4) show ?thesis
    by (simp add: persist_nbu_def getitem_def float_of_text_def save_rate_def)
qed

subsection \<open>One document\<close>

lemma save_data_loop_silent:
  assumes "\<And>h c. c \<in> set entries \<Longrightarrow>
             snd (save_currency w h date xml_root v cl c) = []
             \<and> (\<forall>line. fst (save_currency w h date xml_root v cl c) = Inr line \<longrightarrow> line = [])"
  shows "snd (save_data_loop w hist date xml_root v cl entries acc) = []
         \<and> (\<forall>b. fst (save_data_loop w hist date xml_root v cl entries acc) = Inr b \<longrightarrow> b = acc)"
  using assms
proof (induction entries arbitrary: hist acc)
  case Nil
  then show ?case by simp
next
  case (Cons c cs)
  obtain r evs where sc: "save_currency w hist date xml_root v cl c = (r, evs)"
    by (cases "save_currency w hist date xml_root v cl c")
  from Cons.prems[of c hist] sc have evs: "evs = []" and line: "\<And>line. r = Inr line \<Longrightarrow> line = []"
    by auto
  show ?case
  proof (cases r)
    case (Inl e)
    with sc evs show ?thesis by simp
  next
    case (Inr line)
    with line have "line = []" by simp
    moreover have "snd (save_data_loop w hist date xml_root v cl cs acc) = []
         \<and> (\<forall>b. fst (save_data_loop w hist date xml_root v cl cs acc) = Inr b \<longrightarrow> b = acc)"
    proof (rule Cons.IH)
      fix h c' assume "c' \<in> set cs"
      then show "snd (save_currency w h date xml_root v cl c') = []
             \<and> (\<forall>line. fst (save_currency w h date xml_root v cl c') = Inr line \<longrightarrow> line = [])"
        using Cons.prems[of c' h] by simp
    qed
    ultimately show ?thesis using sc evs Inr
      by (simp split: prod.splits)
  qed
qed

lemma save_data_loop_events:
  assumes "\<And>h c. c \<in> set entries \<Longrightarrow> list_all P (snd (save_currency w h date xml_root v cl c))"
  shows "list_all P (snd (save_data_loop w hist date xml_root v cl entries acc))"
  using assms
proof (induction entries arbitrary: hist acc)
  case Nil
  then show ?case by simp
next
  case (Cons c cs)
  have 1: "list_all P (snd (save_currency w hist date xml_root v cl c))"
    by (rule Cons.prems) simp
  have 2: "\<And>h a. list_all P (snd (save_data_loop w h date xml_root v cl cs a))"
    by (rule Cons.IH) (simp add: Cons.prems)
  obtain r evs where sc: "save_currency w hist date xml_root v cl c = (r, evs)"
    by (cases "save_currency w hist date xml_root v cl c")
  show ?case
  proof (cases r)
    case (Inl e)
    with sc 1 show ?thesis by simp
  next
    case (Inr line)
    with sc 1 2[of "hist @ evs" "acc @ line"] show ?thesis
      by (auto split: prod.splits)
  qed
qed


lemma save_data_loop_nothing_saved:
  "save_data_loop w hist date xml_root v cl entries acc = (Inr b, evs) \<Longrightarrow>
     saved_pairs evs = [] \<Longrightarrow> b = acc \<and> evs = []"
proof (induction entries arbitrary: hist acc evs)
  case Nil
  then show ?case by simp
next
  case (Cons c cs)
  obtain r evs1 where sc: "save_currency w hist date xml_root v cl c = (r, evs1)"
    by (cases "save_currency w hist date xml_root v cl c")
  from Cons.prems(1) sc obtain line where r: "r = Inr line"
    by (cases r) auto
  obtain r' evs2 where lp:
    "save_data_loop w (hist @ evs1) date xml_root v cl cs (acc @ line) = (r', evs2)"
    by (cases "save_data_loop w (hist @ evs1) date xml_root v cl cs (acc @ line)")
  from Cons.prems(1) sc r lp have r': "r' = Inr b" and evs: "evs = evs1 @ evs2" by auto
  from Cons.prems(2) evs have e1: "saved_pairs evs1 = []" and e2: "saved_pairs evs2 = []" by auto
  from save_currency_saved_pairs[OF sc] e1 r have "line = []" "evs1 = []" by auto
  moreover from Cons.IH[OF lp[unfolded r'] e2] have "b = acc @ line" "evs2 = []" by auto
  ultimately show ?case using evs by simp
qed

lemma save_data_nothing_saved:
  "save_data w hist date resp v cl = (Inr line, evs) \<Longrightarrow> saved_pairs evs = [] \<Longrightarrow>
     line = [] \<and> evs = []"
  by (auto simp: save_data_def split: option.splits dest: save_data_loop_nothing_saved)

lemma save_data_events:
  assumes "\<And>h xml_root c. list_all P (snd (save_currency w h date xml_root v cl c))"
  shows "list_all P (snd (save_data w hist date resp v cl))"
  by (auto simp: save_data_def assms split: option.splits intro: save_data_loop_events)

lemma save_data_no_get:
  "filter is_Get (snd (save_data w hist date resp v cl)) = []"
proof -
  have "list_all (\<lambda>e. \<not> is_Get e) (snd (save_data w hist date resp v cl))"
    by (rule save_data_events) (rule save_currency_no_get)
  then show ?thesis by (simp add: list_all_iff filter_empty_conv)
qed



lemma save_data_malformed:
  "ET_fromstring w (resp_text resp) = None \<Longrightarrow> save_data w h date resp v cl = (Inl ParseError, [])"
  by (simp add: save_data_def)

lemma save_rate_fails:
  "\<not> cur_execute w h st \<Longrightarrow> save_rate w h st = (Inl DatabaseError, [Execute st])"
  by (simp add: save_rate_def)

lemma save_data_loop_raise:
  "save_currency w h date xml_root v cl c = (Inl e, evs) \<Longrightarrow>
     save_data_loop w h date xml_root v cl (c # cs) acc = (Inl e, evs)"
  by simp

lemma save_data_raise:
  assumes "ET_fromstring w (resp_text resp) = Some xml_root"
    and "children xml_root = c # cs"
    and "save_currency w h date xml_root v cl c = (Inl e, evs)"
  shows "save_data w h date resp v cl = (Inl e, evs)"
  using assms by (simp add: save_data_def)

subsection \<open>One run\<close>


lemma fetch_fails:
  "(requests_get w hist url 30 = Inl exc \<longrightarrow> fetch w hist url = Inl exc)
   \<and> (requests_get w hist url 30 = Inr resp \<and> 400 \<le> status_code resp \<and> status_code resp < 600
        \<longrightarrow> fetch w hist url = Inl (HTTPError (status_code resp)))"
  by (simp add: fetch_def)

lemma download_rates_loop_Cons_cases:
  obtains
    (skip) exc r evs' where
      "fetch w hist u = Inl exc"
      "download_rates_loop w (hist @ [Get u 30]) v cl rest has body = (r, evs')"
      "download_rates_loop w hist v cl ((d, u) # rest) has body = (r, Get u 30 # evs')"
  | (raise) resp e evs where
      "fetch w hist u = Inr resp"
      "save_data w (hist @ [Get u 30]) d resp v cl = (Inl e, evs)"
      "download_rates_loop w hist v cl ((d, u) # rest) has body = (Inl e, Get u 30 # evs)"
  | (ok) resp email_body_date evs r evs' where
      "fetch w hist u = Inr resp"
      "save_data w (hist @ [Get u 30]) d resp v cl = (Inr email_body_date, evs)"
      "download_rates_loop w (hist @ Get u 30 # evs) v cl rest
         (if email_body_date \<noteq> [] then True else has)
         (if email_body_date \<noteq> [] then body @ date_section d email_body_date else body)
       = (r, evs')"
      "download_rates_loop w hist v cl ((d, u) # rest) has body = (r, Get u 30 # evs @ evs')"
proof (cases "fetch w hist u")
  case (Inl exc)
  obtain r evs' where
    "download_rates_loop w (hist @ [Get u 30]) v cl rest has body = (r, evs')"
    by (cases "download_rates_loop w (hist @ [Get u 30]) v cl rest has body")
  with Inl show ?thesis by (intro skip[of exc r evs']) simp_all
next
  case (Inr resp)
  obtain rs evs where sd: "save_data w (hist @ [Get u 30]) d resp v cl = (rs, evs)"
    by (cases "save_data w (hist @ [Get u 30]) d resp v cl")
  show ?thesis
  proof (cases rs)
    case (Inl e)
    with Inr sd show ?thesis by (intro raise[of resp e evs]) simp_all
  next
    case r: (Inr email_body_date)
    obtain r' evs' where
      "download_rates_loop w (hist @ Get u 30 # evs) v cl rest
         (if email_body_date \<noteq> [] then True else has)
         (if email_body_date \<noteq> [] then body @ date_section d email_body_date else body)
       = (r', evs')"
      by (cases "download_rates_loop w (hist @ Get u 30 # evs) v cl rest
         (if email_body_date \<noteq> [] then True else has)
         (if email_body_date \<noteq> [] then body @ date_section d email_body_date else body)")
    with Inr sd r show ?thesis
      by (intro ok[of resp email_body_date evs r' evs']) (simp_all split: if_splits)
  qed
qed

lemma download_rates_loop_append:
  "download_rates_loop w hist v cl (pre @ items) has body =
     (case download_rates_loop w hist v cl pre has body of
        (Inl e, evs) \<Rightarrow> (Inl e, evs)
      | (Inr (has', body'), evs) \<Rightarrow>
          (case download_rates_loop w (hist @ evs) v cl items has' body' of
             (r, evs') \<Rightarrow> (r, evs @ evs')))"
proof (induction pre arbitrary: hist has body)
  case Nil
  then show ?case by (simp split: prod.splits)
next
  case (Cons it pre)
  obtain d u where it: "it = (d, u)" by (cases it)
  show ?case
    unfolding it
    by (simp add: Cons.IH split: sum.splits prod.splits)
qed

lemma download_rates_loop_events:
  assumes "\<And>u. P (Get u 30)"
    and "\<And>h d resp. list_all P (snd (save_data w h d resp v cl))"
  shows "list_all P (snd (download_rates_loop w hist v cl items has body))"
proof (induction items arbitrary: hist has body)
  case Nil
  then show ?case by simp
next
  case (Cons it rest)
  obtain d u where it: "it = (d, u)" by (cases it)
  show ?case
  proof (cases rule: download_rates_loop_Cons_cases[of w hist u v cl rest has body d])
    case (skip exc r evs')
    with Cons.IH[of "hist @ [Get u 30]" has body] assms(1) show ?thesis by (simp add: it)
  next
    case (raise resp e evs)
    with assms(2)[of "hist @ [Get u 30]" d resp] assms(1) show ?thesis by (simp add: it)
  next
    case (ok resp email_body_date evs r evs')
    with assms(2)[of "hist @ [Get u 30]" d resp] assms(1)
      Cons.IH[of "hist @ Get u 30 # evs" "if email_body_date \<noteq> [] then True else has"
        "if email_body_date \<noteq> [] then body @ date_section d email_body_date else body"]
    show ?thesis by (simp add: it)
  qed
qed

lemma download_rates_loop_gets:
  "\<exists>k. filter is_Get (snd (download_rates_loop w hist v cl items has body))
         = map (\<lambda>(d, u). Get u 30) (take k items)
       \<and> (\<forall>r. fst (download_rates_loop w hist v cl items has body) = Inr r \<longrightarrow> k = length items)"
proof (induction items arbitrary: hist has body)
  case Nil
  then show ?case by simp
next
  case (Cons it rest)
  obtain d u where it: "it = (d, u)" by (cases it)
  show ?case
  proof (cases rule: download_rates_loop_Cons_cases[of w hist u v cl rest has body d])
    case (skip exc r evs')
    from Cons.IH[of "hist @ [Get u 30]" has body] skip(2)
    obtain k where "filter is_Get evs' = map (\<lambda>(d, u). Get u 30) (take k rest)"
      "\<forall>r'. r = Inr r' \<longrightarrow> k = length rest" by auto
    with skip(3) show ?thesis
      by (intro exI[of _ "Suc k"]) (simp add: it)
  next
    case (raise resp e evs)
    with save_data_no_get[of w "hist @ [Get u 30]" d resp v cl] show ?thesis
      by (intro exI[of _ "Suc 0"]) (simp add: it)
  next
    case (ok resp email_body_date evs r evs')
    from Cons.IH[of "hist @ Get u 30 # evs" "if email_body_date \<noteq> [] then True else has"
        "if email_body_date \<noteq> [] then body @ date_section d email_body_date else body"] ok(3)
    obtain k where "filter is_Get evs' = map (\<lambda>(d, u). Get u 30) (take k rest)"
      "\<forall>r'. r = Inr r' \<longrightarrow> k = length rest" by auto
    with ok(4) ok(2) save_data_no_get[of w "hist @ [Get u 30]" d resp v cl] show ?thesis
      by (intro exI[of _ "Suc k"]) (simp add: it)
  qed
qed


lemma download_rates_loop_body:
  assumes "download_rates_loop w hist v cl items has body = (Inr (has', body'), evs)"
  shows "(\<exists>s. body' = body @ s) \<and> (saved_pairs evs = [] \<longrightarrow> has' = has \<and> body' = body)"
  using assms
proof (induction items arbitrary: hist has body evs)
  case Nil
  then show ?case by simp
next
  case (Cons it rest)
  obtain d u where it: "it = (d, u)" by (cases it)
  show ?case
  proof (cases rule: download_rates_loop_Cons_cases[of w hist u v cl rest has body d])
    case (skip exc r evs')
    with Cons.prems it have "r = Inr (has', body')" "evs = Get u 30 # evs'" by auto
    with Cons.IH[of "hist @ [Get u 30]" has body evs'] skip(2) show ?thesis by simp
  next
    case (raise resp e evs)
    with Cons.prems it show ?thesis by simp
  next
    case (ok resp email_body_date evs1 r evs')
    with Cons.prems it have r: "r = Inr (has', body')" and evs: "evs = Get u 30 # evs1 @ evs'"
      by auto
    note ih = Cons.IH[OF ok(3)[unfolded r]]
    show ?thesis
    proof (cases "email_body_date = []")
      case True
      with ih evs show ?thesis by simp
    next
      case False
      with save_data_nothing_saved[OF ok(2)] have "saved_pairs evs1 \<noteq> []" by auto
      with ih evs False show ?thesis by auto
    qed
  qed
qed


lemma download_rates_loop_raise:
  assumes "download_rates_loop w hist v cl pre has body = (Inr (has', body'), evs1)"
    and "fetch w (hist @ evs1) url = Inr resp"
    and "save_data w (hist @ evs1 @ [Get url 30]) date resp v cl = (Inl e, evs2)"
  shows "download_rates_loop w hist v cl (pre @ (date, url) # rest) has body
           = (Inl e, evs1 @ Get url 30 # evs2)"
  using assms by (simp add: download_rates_loop_append)

lemma download_rates_loop_raise_first:
  assumes "fetch w hist url = Inr resp"
    and "save_data w (hist @ [Get url 30]) date resp v cl = (Inl e, evs)"
  shows "download_rates_loop w hist v cl ((date, url) # rest) has body
           = (Inl e, Get url 30 # evs)"
  using assms by simp

lemma download_rates_loop_skip:
  "fetch w hist url = Inl exc \<Longrightarrow>
     download_rates_loop w hist v cl ((date, url) # rest) has body =
       (case download_rates_loop w (hist @ [Get url 30]) v cl rest has body of
          (r, evs) \<Rightarrow> (r, Get url 30 # evs))"
  by simp

lemma download_rates_nbu_nominal:
  assumes "v \<noteq> 2"
  shows "list_all (\<lambda>e. \<forall>v' code d n f. e = Execute (SaveRate v' code d n f) \<longrightarrow> n = NominalInt 1)
           (snd (download_rates w hist url_list cl v))"
  unfolding download_rates_def
  by (intro download_rates_loop_events save_data_events save_currency_nbu_nominal assms) simp

subsection \<open>A failing call is the last call\<close>

lemma split_at_event:
  assumes "pre @ x # post = a @ b"
  shows "(\<exists>q. a = pre @ x # q \<and> post = q @ b) \<or> (\<exists>us. pre = a @ us \<and> b = us @ x # post)"
proof -
  from assms consider us where "pre = a @ us" "us @ x # post = b"
    | us where "pre @ us = a" "x # post = us @ b"
    by (auto simp: append_eq_append_conv2)
  then show ?thesis
  proof cases
    case 1
    then show ?thesis by auto
  next
    case 2
    show ?thesis
    proof (cases us)
      case Nil
      with 2 show ?thesis by auto
    next
      case (Cons y ys)
      with 2 show ?thesis by auto
    qed
  qed
qed

lemma save_rate_failing_execute:
  assumes "save_rate w h st0 = (r, pre @ Execute st # post)"
    and "\<not> cur_execute w (h @ pre) st"
  shows "r = Inl DatabaseError \<and> post = []"
  using assms
  by (auto simp: save_rate_def Cons_eq_append_conv append_eq_Cons_conv split: if_splits)

lemma persist_cbr_failing_execute:
  assumes "persist_cbr w h v date cid c = (r, pre @ Execute st # post)"
    and "\<not> cur_execute w (h @ pre) st"
  shows "r = Inl DatabaseError \<and> post = []"
  using assms
  by (auto simp: persist_cbr_def Let_def split: sum.splits prod.splits
      dest: save_rate_failing_execute)

lemma persist_nbu_failing_execute:
  assumes "persist_nbu w h v date code crncy = (r, pre @ Execute st # post)"
    and "\<not> cur_execute w (h @ pre) st"
  shows "r = Inl DatabaseError \<and> post = []"
  using assms
  by (auto simp: persist_nbu_def split: sum.splits prod.splits
      dest: save_rate_failing_execute)

lemma save_currency_failing_execute:
  assumes "save_currency w h date xml_root v cl c = (r, pre @ Execute st # post)"
    and "\<not> cur_execute w (h @ pre) st"
  shows "r = Inl DatabaseError \<and> post = []"
  using assms
  by (auto simp: save_currency_def Let_def split: sum.splits option.splits if_splits
      dest: persist_cbr_failing_execute persist_nbu_failing_execute)

lemma save_data_loop_failing_execute:
  assumes "save_data_loop w h date xml_root v cl entries acc = (r, pre @ Execute st # post)"
    and "\<not> cur_execute w (h @ pre) st"
  shows "r = Inl DatabaseError \<and> post = []"
  using assms
proof (induction entries arbitrary: h acc pre r)
  case Nil
  then show ?case by simp
next
  case (Cons c cs)
  obtain r1 evs1 where sc: "save_currency w h date xml_root v cl c = (r1, evs1)"
    by (cases "save_currency w h date xml_root v cl c")
  show ?case
  proof (cases r1)
    case (Inl e)
    with sc Cons.prems(1) have "save_currency w h date xml_root v cl c
        = (r, pre @ Execute st # post)"
      by simp
    then show ?thesis using Cons.prems(2) by (rule save_currency_failing_execute)
  next
    case (Inr line)
    obtain r2 evs2 where lp:
      "save_data_loop w (h @ evs1) date xml_root v cl cs (acc @ line) = (r2, evs2)"
      by (cases "save_data_loop w (h @ evs1) date xml_root v cl cs (acc @ line)")
    from sc Inr lp Cons.prems(1) have r: "r = r2" and evs: "pre @ Execute st # post = evs1 @ evs2"
      by auto
    from split_at_event[OF evs] show ?thesis
    proof (elim disjE exE conjE)
      fix q assume "evs1 = pre @ Execute st # q"
      with sc Cons.prems(2) have "r1 = Inl DatabaseError"
        using save_currency_failing_execute by blast
      with Inr show ?thesis by simp
    next
      fix us assume us: "pre = evs1 @ us" "evs2 = us @ Execute st # post"
      from Cons.prems(2) us(1) have "\<not> cur_execute w ((h @ evs1) @ us) st" by simp
      with Cons.IH[OF lp[unfolded us(2)]] r show ?thesis by simp
    qed
  qed
qed

lemma save_data_failing_execute:
  assumes "save_data w h date resp v cl = (r, pre @ Execute st # post)"
    and "\<not> cur_execute w (h @ pre) st"
  shows "r = Inl DatabaseError \<and> post = []"
  using assms
  by (auto simp: save_data_def split: option.splits dest: save_data_loop_failing_execute)

lemma download_rates_loop_failing_execute:
  assumes "download_rates_loop w hist v cl items has body = (r, pre @ Execute st # post)"
    and "\<not> cur_execute w (hist @ pre) st"
  shows "r = Inl DatabaseError \<and> post = []"
  using assms
proof (induction items arbitrary: hist has body pre r)
  case Nil
  then show ?case by simp
next
  case (Cons it rest)
  obtain d u where it: "it = (d, u)" by (cases it)
  show ?case
  proof (cases rule: download_rates_loop_Cons_cases[of w hist u v cl rest has body d])
    case (skip exc r' evs')
    with Cons.prems(1) it have r: "r = r'" and evs: "pre @ Execute st # post = Get u 30 # evs'"
      by auto
    from evs obtain pre' where pre: "pre = Get u 30 # pre'" and evs': "evs' = pre' @ Execute st # post"
      by (cases pre) auto
    from Cons.prems(2) pre have "\<not> cur_execute w ((hist @ [Get u 30]) @ pre') st" by simp
    with Cons.IH[OF skip(2)[unfolded evs']] r show ?thesis by simp
  next
    case (raise resp e evs)
    with Cons.prems(1) it have r: "r = Inl e" and evs: "pre @ Execute st # post = Get u 30 # evs"
      by auto
    from evs obtain pre' where pre: "pre = Get u 30 # pre'" and evs': "evs = pre' @ Execute st # post"
      by (cases pre) auto
    from Cons.prems(2) pre have "\<not> cur_execute w ((hist @ [Get u 30]) @ pre') st" by simp
    with save_data_failing_execute[OF raise(2)[unfolded evs']] r show ?thesis by simp
  next
    case (ok resp email_body_date evs1 r' evs')
    with Cons.prems(1) it have r: "r = r'"
      and evs: "pre @ Execute st # post = Get u 30 # evs1 @ evs'"
      by auto
    from evs obtain pre' where pre: "pre = Get u 30 # pre'"
      and evs': "pre' @ Execute st # post = evs1 @ evs'"
      by (cases pre) auto
    from split_at_event[OF evs'] show ?thesis
    proof (elim disjE exE conjE)
      fix q assume q: "evs1 = pre' @ Execute st # q"
      from Cons.prems(2) pre have "\<not> cur_execute w ((hist @ [Get u 30]) @ pre') st" by simp
      with save_data_failing_execute[OF ok(2)[unfolded q]] show ?thesis by simp
    next
      fix us assume us: "pre' = evs1 @ us" "evs' = us @ Execute st # post"
      from Cons.prems(2) pre us(1) have "\<not> cur_execute w ((hist @ Get u 30 # evs1) @ us) st"
        by simp
      with Cons.IH[OF ok(3)[unfolded us(2)]] r show ?thesis by simp
    qed
  qed
qed

lemma download_rates_loop_malformed:
  assumes "download_rates_loop w hist v cl items has body = (r, pre @ Get url t # post)"
    and "fetch w (hist @ pre) url = Inr resp"
    and "ET_fromstring w (resp_text resp) = None"
  shows "r = Inl ParseError \<and> post = []"
  using assms(1,2)
proof (induction items arbitrary: hist has body pre r)
  case Nil
  then show ?case by simp
next
  case (Cons it rest)
  obtain d u where it: "it = (d, u)" by (cases it)
  have bad: "save_data w h d' resp v cl = (Inl ParseError, [])" for h d'
    using assms(3) by (simp add: save_data_def)
  show ?case
  proof (cases pre)
    case Nil
    show ?thesis
    proof (cases rule: download_rates_loop_Cons_cases[of w hist u v cl rest has body d])
      case (skip exc r' evs')
      with Cons.prems Nil it show ?thesis by auto
    next
      case (raise resp' e evs)
      with Cons.prems Nil it bad[of "hist @ [Get u 30]" d] show ?thesis by auto
    next
      case (ok resp' email_body_date evs1 r' evs')
      with Cons.prems Nil it bad[of "hist @ [Get u 30]" d] show ?thesis by auto
    qed
  next
    case pre: (Cons x pre')
    show ?thesis
    proof (cases rule: download_rates_loop_Cons_cases[of w hist u v cl rest has body d])
      case (skip exc r' evs')
      with Cons.prems(1) it pre have r: "r = r'" and x: "x = Get u 30"
        and evs': "evs' = pre' @ Get url t # post"
        by auto
      from Cons.prems(2) pre x have "fetch w ((hist @ [Get u 30]) @ pre') url = Inr resp" by simp
      with Cons.IH[OF skip(2)[unfolded evs']] r show ?thesis by simp
    next
      case (raise resp' e evs)
      with Cons.prems(1) it pre have "evs = pre' @ Get url t # post" by auto
      with save_data_no_get[of w "hist @ [Get u 30]" d resp' v cl] raise(2) show ?thesis
        by simp
    next
      case (ok resp' email_body_date evs1 r' evs')
      with Cons.prems(1) it pre have r: "r = r'" and x: "x = Get u 30"
        and evs: "pre' @ Get url t # post = evs1 @ evs'"
        by auto
      from split_at_event[OF evs] show ?thesis
      proof (elim disjE exE conjE)
        fix q assume q: "evs1 = pre' @ Get url t # q"
        with save_data_no_get[of w "hist @ [Get u 30]" d resp' v cl] ok(2) show ?thesis
          by simp
      next
        fix us assume us: "pre' = evs1 @ us" "evs' = us @ Get url t # post"
        from Cons.prems(2) pre x us(1)
        have "fetch w ((hist @ Get u 30 # evs1) @ us) url = Inr resp" by simp
        with Cons.IH[OF ok(3)[unfolded us(2)]] r show ?thesis by simp
      qed
    qed
  qed
qed

subsection \<open>The scenario of the specification\<close>

text \<open>
  The end-to-end scenario of the specification: one work item for 2024-01-10, the US dollar
  last stored on 2024-01-09, and a document of the Central Bank of Russia dated 10.01.2024.
\<close>

lemma end_to_end_scenario:
  "download_rates example_world [] [(Date 2024 1 10, ''cbr'')] [''840'' \<mapsto> Date 2024 1 9] 2 =
     (Inr (True,
        ''Downloaded exchange rates from CBR:'' @ [CHR 0x0A, CHR 0x0A]
        @ ''***** Exchange rates on date 2024-01-10 *****'' @ [CHR 0x0A]
        @ ''USD: 90,5000/1'' @ [CHR 0x0A, CHR 0x0A]),
      [Get ''cbr'' 30,
       Execute (SaveRate 2 (Some ''840'') (Date 2024 1 10) (NominalText (Some ''1'')) (181 / 2)),
       Execute Commit])"
  by (simp add: example_defs run_defs decimal.simps)

section \<open>The staleness filter\<close>

text \<open>
  Claim C1. For an entry whose currency code can be read (the \<^verbatim>\<open>ID\<close> attribute for
  id 2, the text of \<^verbatim>\<open>r030\<close> otherwise): if the code is not a key of
  \<^verbatim>\<open>crncy_list\<close>, or the requested date is equal to or earlier than the date stored
  for it, the entry is passed over without any call and without any text. If moreover, for
  id 2, the document carries the requested date (claim C2), the entry is handed to the
  saving block if and only if the code is a key of \<^verbatim>\<open>crncy_list\<close> and the requested
  date is strictly later than the stored date; the saving block never looks like a
  passed-over entry, so the entry is passed over exactly when that condition fails.
\<close>

theorem staleness_filter_keeps_iff:
  assumes "if var_in_crncy_id = 2
           then map_of (attrib currency) ''ID'' = Some code
           else fill_crncy Map.empty (children currency) ''r030'' = Some (Some code)"
  shows "(\<not> (\<exists>last_date. crncy_list code = Some last_date \<and> last_date < date) \<longrightarrow>
            save_currency w hist date xml_root var_in_crncy_id crncy_list currency = (Inr [], []))
         \<and> ((var_in_crncy_id = 2 \<longrightarrow>
                (\<exists>ds. map_of (attrib xml_root) ''Date'' = Some ds \<and> strptime w ds = Some date)) \<longrightarrow>
              save_currency w hist date xml_root var_in_crncy_id crncy_list currency =
                (if \<exists>last_date. crncy_list code = Some last_date \<and> last_date < date
                 then (if var_in_crncy_id = 2
                       then persist_cbr w hist var_in_crncy_id date code currency
                       else persist_nbu w hist var_in_crncy_id date code
                              (fill_crncy Map.empty (children currency)))
                 else (Inr [], []))
              \<and> (save_currency w hist date xml_root var_in_crncy_id crncy_list currency = (Inr [], [])
                   \<longleftrightarrow> \<not> (\<exists>last_date. crncy_list code = Some last_date \<and> last_date < date)))"
proof (intro conjI impI)
  assume "\<not> (\<exists>last_date. crncy_list code = Some last_date \<and> last_date < date)"
  with assms
  show "save_currency w hist date xml_root var_in_crncy_id crncy_list currency = (Inr [], [])"
    by (auto simp: save_currency_def getitem_def Let_def split: option.splits if_splits)
next
  assume d: "var_in_crncy_id = 2 \<longrightarrow>
              (\<exists>ds. map_of (attrib xml_root) ''Date'' = Some ds \<and> strptime w ds = Some date)"
  with assms
  show eq: "save_currency w hist date xml_root var_in_crncy_id crncy_list currency =
           (if \<exists>last_date. crncy_list code = Some last_date \<and> last_date < date
            then (if var_in_crncy_id = 2
                  then persist_cbr w hist var_in_crncy_id date code currency
                  else persist_nbu w hist var_in_crncy_id date code
                         (fill_crncy Map.empty (children currency)))
            else (Inr [], []))"
    by (auto simp: save_currency_def getitem_def Let_def split: option.splits if_splits)
  show "save_currency w hist date xml_root var_in_crncy_id crncy_list currency = (Inr [], [])
          \<longleftrightarrow> \<not> (\<exists>last_date. crncy_list code = Some last_date \<and> last_date < date)"
    unfolding eq by (simp add: persist_cbr_not_silent persist_nbu_not_silent)
qed

theorem staleness_filter_keeps_iff_witness:
  "save_currency example_world [] (Date 2024 1 10) cbr_doc 2 [''840'' \<mapsto> Date 2024 1 9] usd_valute
     \<noteq> (Inr [], [])
   \<and> save_currency example_world [] (Date 2024 1 10) cbr_doc 2 [''840'' \<mapsto> Date 2024 1 10] usd_valute
     = (Inr [], [])
   \<and> save_currency example_world [] (Date 2024 1 10) nbu_doc 8 [''978'' \<mapsto> Date 2024 1 9] usd_currency
     = (Inr [], [])"
proof -
  have cbr: "if (2::int) = 2
           then map_of (attrib usd_valute) ''ID'' = Some ''840''
           else fill_crncy Map.empty (children usd_valute) ''r030'' = Some (Some ''840'')"
    by (simp add: example_defs)
  have nbu: "if (8::int) = 2
           then map_of (attrib usd_currency) ''ID'' = Some ''840''
           else fill_crncy Map.empty (children usd_currency) ''r030'' = Some (Some ''840'')"
    by (simp add: example_defs fill_crncy_def)
  have dated: "(2::int) = 2 \<longrightarrow> (\<exists>ds. map_of (attrib cbr_doc) ''Date'' = Some ds
                      \<and> strptime example_world ds = Some (Date 2024 1 10))"
    by (simp add: example_defs)
  have newer: "\<exists>last_date. [''840'' \<mapsto> Date 2024 1 9] ''840'' = Some last_date
                 \<and> last_date < Date 2024 1 10"
    by (simp add: less_date_def)
  have same: "\<not> (\<exists>last_date. [''840'' \<mapsto> Date 2024 1 10] ''840'' = Some last_date
                 \<and> last_date < Date 2024 1 10)"
    by simp
  have absent: "\<not> (\<exists>last_date. [''978'' \<mapsto> Date 2024 1 9] ''840'' = Some last_date
                 \<and> last_date < Date 2024 1 10)"
    by simp
  from staleness_filter_keeps_iff [OF cbr, where crncy_list = "[''840'' \<mapsto> Date 2024 1 9]"
      and date = "Date 2024 1 10" and xml_root = cbr_doc and w = example_world and hist = "[]"]
    dated newer
  have "save_currency example_world [] (Date 2024 1 10) cbr_doc 2
          [''840'' \<mapsto> Date 2024 1 9] usd_valute \<noteq> (Inr [], [])"
    by blast
  moreover
  from staleness_filter_keeps_iff [OF cbr, where crncy_list = "[''840'' \<mapsto> Date 2024 1 10]"
      and date = "Date 2024 1 10" and xml_root = cbr_doc and w = example_world and hist = "[]"]
    same
  have "save_currency example_world [] (Date 2024 1 10) cbr_doc 2
          [''840'' \<mapsto> Date 2024 1 10] usd_valute = (Inr [], [])"
    by blast
  moreover
  from staleness_filter_keeps_iff [OF nbu, where crncy_list = "[''978'' \<mapsto> Date 2024 1 9]"
      and date = "Date 2024 1 10" and xml_root = nbu_doc and w = example_world and hist = "[]"]
    absent
  have "save_currency example_world [] (Date 2024 1 10) nbu_doc 8
          [''978'' \<mapsto> Date 2024 1 9] usd_currency = (Inr [], [])"
    by blast
  ultimately show ?thesis by simp
qed

section \<open>The date of a document of the Central Bank of Russia\<close>

text \<open>
  Claim C2. For id 2, whenever \<^verbatim>\<open>save_data\<close> executes a statement or returns a
  non-empty text, the document is well-formed, its root has a \<^verbatim>\<open>Date\<close> attribute,
  and that attribute parses (day.month.year) to the requested date. Hence a document whose
  declared date differs from the requested one yields no call and no report line, whatever
  its entries contain.
\<close>

theorem cbr_saves_only_for_document_date:
  assumes "snd (save_data w hist date resp 2 crncy_list) \<noteq> []
           \<or> (\<exists>line. fst (save_data w hist date resp 2 crncy_list) = Inr line \<and> line \<noteq> [])"
  shows "\<exists>xml_root ds. ET_fromstring w (resp_text resp) = Some xml_root
           \<and> map_of (attrib xml_root) ''Date'' = Some ds \<and> strptime w ds = Some date"
proof (cases "ET_fromstring w (resp_text resp)")
  case None
  with assms show ?thesis by (simp add: save_data_def)
next
  case (Some xml_root)
  show ?thesis
  proof (rule ccontr)
    assume neg: "\<not> ?thesis"
    with Some have
      "\<not> (\<exists>ds. map_of (attrib xml_root) ''Date'' = Some ds \<and> strptime w ds = Some date)"
      by simp
    then have "snd (save_data_loop w hist date xml_root 2 crncy_list (children xml_root) []) = []
         \<and> (\<forall>b. fst (save_data_loop w hist date xml_root 2 crncy_list (children xml_root) []) = Inr b
               \<longrightarrow> b = [])"
      by (intro save_data_loop_silent cbr_entry_other_date)
    with assms Some show False by (auto simp: save_data_def)
  qed
qed

theorem cbr_saves_only_for_document_date_witness:
  "snd (save_data example_world [] (Date 2024 1 10)
          \<lparr>status_code = 200, resp_text = ''<ValCurs>''\<rparr> 2 [''840'' \<mapsto> Date 2024 1 9]) \<noteq> []
   \<and> (\<exists>xml_root ds. ET_fromstring example_world ''<ValCurs>'' = Some xml_root
         \<and> map_of (attrib xml_root) ''Date'' = Some ds
         \<and> strptime example_world ds = Some (Date 2024 1 10))"
proof -
  have h: "snd (save_data example_world [] (Date 2024 1 10)
          \<lparr>status_code = 200, resp_text = ''<ValCurs>''\<rparr> 2 [''840'' \<mapsto> Date 2024 1 9]) \<noteq> []"
    by (simp add: example_defs run_defs)
  from cbr_saves_only_for_document_date [OF disjI1, OF h] h show ?thesis by simp
qed

section \<open>Errors raised by save\_data\<close>

text \<open>
  Claim C3, as the code has it. A document that is not well-formed XML makes
  \<^verbatim>\<open>save_data\<close> raise \<^verbatim>\<open>ParseError\<close> before any call (no partial parse). A
  \<^verbatim>\<open>cur.execute\<close> that fails, for the save or for the commit, makes the entry, and
  with it \<^verbatim>\<open>save_data\<close>, raise the database error, and it is the last call they
  make. An entry that raises ends the loop over the entries of its document.
  \<^verbatim>\<open>download_rates\<close> catches none of these: when \<^verbatim>\<open>save_data\<close> raises for a
  work item, at whatever position in the work list, \<^verbatim>\<open>download_rates\<close> raises
  the same error, the calls made so far stay made, and no later work item is fetched. For
  a whole run: a statement whose execution fails is the last call of the run, which raises
  the database error; and the request that fetches a document that is not well-formed is
  the last call of the run, which raises \<^verbatim>\<open>ParseError\<close>.
\<close>

theorem save_data_error_aborts_run:
  "(ET_fromstring w (resp_text resp) = None \<longrightarrow>
      save_data w h date resp v cl = (Inl ParseError, []))
   \<and> (\<not> cur_execute w h st \<longrightarrow> save_rate w h st = (Inl DatabaseError, [Execute st]))
   \<and> (save_currency w h date xml_root v cl c = (r, pre_evs @ Execute st # post_evs)
        \<and> \<not> cur_execute w (h @ pre_evs) st \<longrightarrow>
        r = Inl DatabaseError \<and> post_evs = [])
   \<and> (save_data w h date resp v cl = (r, pre_evs @ Execute st # post_evs)
        \<and> \<not> cur_execute w (h @ pre_evs) st \<longrightarrow>
        r = Inl DatabaseError \<and> post_evs = [])
   \<and> (save_currency w h date xml_root v cl c = (Inl e, evs) \<longrightarrow>
        save_data_loop w h date xml_root v cl (c # cs) acc = (Inl e, evs))
   \<and> (download_rates_loop w hist v cl pre has body = (Inr (has', body'), evs1)
        \<and> fetch w (hist @ evs1) url = Inr resp'
        \<and> save_data w (hist @ evs1 @ [Get url 30]) date' resp' v cl = (Inl e', evs2) \<longrightarrow>
        download_rates_loop w hist v cl (pre @ (date', url) # rest) has body
          = (Inl e', evs1 @ Get url 30 # evs2))
   \<and> (download_rates w hist url_list cl v = (res, pre_evs @ Execute st # post_evs)
        \<and> \<not> cur_execute w (hist @ pre_evs) st \<longrightarrow>
        res = Inl DatabaseError \<and> post_evs = [])
   \<and> (download_rates w hist url_list cl v = (res, pre_evs @ Get url timeout # post_evs)
        \<and> fetch w (hist @ pre_evs) url = Inr resp
        \<and> ET_fromstring w (resp_text resp) = None \<longrightarrow>
        res = Inl ParseError \<and> post_evs = [])"
proof (intro conjI impI; (elim conjE)?)
  assume "ET_fromstring w (resp_text resp) = None"
  then show "save_data w h date resp v cl = (Inl ParseError, [])"
    by (rule save_data_malformed)
next
  assume "\<not> cur_execute w h st"
  then show "save_rate w h st = (Inl DatabaseError, [Execute st])"
    by (rule save_rate_fails)
next
  assume a: "save_currency w h date xml_root v cl c = (r, pre_evs @ Execute st # post_evs)"
    "\<not> cur_execute w (h @ pre_evs) st"
  from save_currency_failing_execute [OF a] show "r = Inl DatabaseError" "post_evs = []"
    by simp_all
next
  assume a: "save_data w h date resp v cl = (r, pre_evs @ Execute st # post_evs)"
    "\<not> cur_execute w (h @ pre_evs) st"
  from save_data_failing_execute [OF a] show "r = Inl DatabaseError" "post_evs = []"
    by simp_all
next
  assume "save_currency w h date xml_root v cl c = (Inl e, evs)"
  then show "save_data_loop w h date xml_root v cl (c # cs) acc = (Inl e, evs)"
    by (rule save_data_loop_raise)
next
  assume "download_rates_loop w hist v cl pre has body = (Inr (has', body'), evs1)"
    "fetch w (hist @ evs1) url = Inr resp'"
    "save_data w (hist @ evs1 @ [Get url 30]) date' resp' v cl = (Inl e', evs2)"
  then show "download_rates_loop w hist v cl (pre @ (date', url) # rest) has body
          = (Inl e', evs1 @ Get url 30 # evs2)"
    by (rule download_rates_loop_raise)
next
  assume a: "download_rates w hist url_list cl v = (res, pre_evs @ Execute st # post_evs)"
    "\<not> cur_execute w (hist @ pre_evs) st"
  from download_rates_loop_failing_execute [OF a(1) [unfolded download_rates_def] a(2)]
  show "res = Inl DatabaseError" "post_evs = []"
    by simp_all
next
  assume a: "download_rates w hist url_list cl v = (res, pre_evs @ Get url timeout # post_evs)"
    "fetch w (hist @ pre_evs) url = Inr resp" "ET_fromstring w (resp_text resp) = None"
  from download_rates_loop_malformed [OF a(1) [unfolded download_rates_def] a(2,3)]
  show "res = Inl ParseError" "post_evs = []"
    by simp_all
qed

theorem save_data_error_aborts_run_witness:
  "ET_fromstring example_world ''<'' = None
   \<and> download_rates_loop example_world [] 2 [''840'' \<mapsto> Date 2024 1 8]
        ([] @ (Date 2024 1 9, ''broken'') # [(Date 2024 1 10, ''cbr'')]) False (header 2)
      = (Inl ParseError, [] @ Get ''broken'' 30 # [])
   \<and> \<not> cur_execute failing_db_world [] Commit
   \<and> save_rate failing_db_world [] Commit = (Inl DatabaseError, [Execute Commit])
   \<and> \<not> cur_execute failing_db_world ([] @ [Get ''cbr'' 30])
         (SaveRate 2 (Some ''840'') (Date 2024 1 10) (NominalText (Some ''1'')) (181 / 2))
   \<and> download_rates failing_db_world []
        [(Date 2024 1 10, ''cbr''), (Date 2024 1 11, ''nbu'')] [''840'' \<mapsto> Date 2024 1 8] 2
      = (Inl DatabaseError,
         [Get ''cbr'' 30] @
         Execute (SaveRate 2 (Some ''840'') (Date 2024 1 10) (NominalText (Some ''1'')) (181 / 2))
         # [])
   \<and> fetch example_world ([] @ []) ''broken'' = Inr \<lparr>status_code = 200, resp_text = ''<''\<rparr>
   \<and> download_rates example_world []
        [(Date 2024 1 9, ''broken''), (Date 2024 1 10, ''cbr'')] [''840'' \<mapsto> Date 2024 1 8] 2
      = (Inl ParseError, [] @ Get ''broken'' 30 # [])"
proof -
  let ?cl = "[''840'' \<mapsto> Date 2024 1 8]"
  let ?resp = "\<lparr>status_code = 200, resp_text = ''<''\<rparr>"
  let ?st = "SaveRate 2 (Some ''840'') (Date 2024 1 10) (NominalText (Some ''1'')) (181 / 2)
               :: rat stmt"
  let ?db_items = "[(Date 2024 1 10, ''cbr''), (Date 2024 1 11, ''nbu'')]"
  let ?xml_items = "[(Date 2024 1 9, ''broken''), (Date 2024 1 10, ''cbr'')]"
  have h0: "ET_fromstring example_world (resp_text ?resp) = None"
    by (simp add: example_defs)
  have h1: "download_rates_loop example_world [] 2 ?cl [] False (header 2)
              = (Inr (False, header 2), [])"
    by simp
  have h2: "fetch example_world ([] @ []) ''broken'' = Inr ?resp"
    by (simp add: fetch_def example_defs)
  have h3: "save_data example_world ([] @ [] @ [Get ''broken'' 30]) (Date 2024 1 9) ?resp 2 ?cl
              = (Inl ParseError, [])"
    using h0 by (simp add: save_data_def)
  have h4: "\<not> cur_execute failing_db_world [] Commit"
    by (simp add: example_defs)
  have h5: "\<not> cur_execute failing_db_world ([] @ [Get ''cbr'' 30]) ?st"
    by (simp add: example_defs)
  obtain res post_evs where run: "download_rates failing_db_world [] ?db_items ?cl 2
      = (res, [Get ''cbr'' 30] @ Execute ?st # post_evs)"
    by (simp add: example_defs run_defs)
  obtain res' post_evs' where run': "download_rates example_world [] ?xml_items ?cl 2
      = (res', [] @ Get ''broken'' 30 # post_evs')"
    by (simp add: example_defs run_defs)
  have a: "download_rates_loop example_world [] 2 ?cl
          ([] @ (Date 2024 1 9, ''broken'') # [(Date 2024 1 10, ''cbr'')]) False (header 2)
        = (Inl ParseError, [] @ Get ''broken'' 30 # [])"
    by (rule save_data_error_aborts_run
          [where w = example_world and hist = "[]" and v = 2 and cl = ?cl and pre = "[]"
             and rest = "[(Date 2024 1 10, ''cbr'')]",
           THEN conjunct2, THEN conjunct2, THEN conjunct2, THEN conjunct2, THEN conjunct2,
           THEN conjunct1, THEN mp, OF conjI [OF h1 conjI [OF h2 h3]]])
  have b: "save_rate failing_db_world [] Commit = (Inl DatabaseError, [Execute Commit])"
    by (rule save_data_error_aborts_run
          [where w = failing_db_world and h = "[]" and st = Commit,
           THEN conjunct2, THEN conjunct1, THEN mp, OF h4])
  have c: "res = Inl DatabaseError \<and> post_evs = []"
    by (rule save_data_error_aborts_run
          [THEN conjunct2, THEN conjunct2, THEN conjunct2, THEN conjunct2, THEN conjunct2,
           THEN conjunct2, THEN conjunct1, THEN mp, OF conjI [OF run h5]])
  have d: "res' = Inl ParseError \<and> post_evs' = []"
    by (rule save_data_error_aborts_run
          [THEN conjunct2, THEN conjunct2, THEN conjunct2, THEN conjunct2, THEN conjunct2,
           THEN conjunct2, THEN conjunct2, THEN mp, OF conjI [OF run' conjI [OF h2 h0]]])
  from h0 a h4 b h5 run c h2 run' d show ?thesis by simp
qed

text \<open>
  The claim as the specification words it, that the run continues with the remaining work
  items, fails: after a document that is not XML the next work item is never fetched, and
  after a failing save neither the commit nor the next work item follows.
\<close>

theorem run_aborts_on_save_data_error:
  "download_rates example_world []
      [(Date 2024 1 9, ''broken''), (Date 2024 1 10, ''cbr'')] [''840'' \<mapsto> Date 2024 1 8] 2
     = (Inl ParseError, [Get ''broken'' 30])
   \<and> download_rates failing_db_world []
      [(Date 2024 1 10, ''cbr''), (Date 2024 1 11, ''nbu'')] [''840'' \<mapsto> Date 2024 1 8] 2
     = (Inl DatabaseError,
        [Get ''cbr'' 30,
         Execute (SaveRate 2 (Some ''840'') (Date 2024 1 10) (NominalText (Some ''1'')) (181 / 2))])"
  by (simp add: example_defs run_defs)

section \<open>Failed requests\<close>

text \<open>
  Claim C4. A request that raises, or whose response has a status from 400 to 599, fails
  the fetch. For a work item whose fetch fails, the run makes the one request and goes on
  with the remaining work items from the same flag and the same body: nothing is saved for
  it, no text for its date is added, and its URL is not requested again. The requests of a
  whole run are the URLs of an initial part of the work list, in order, each requested once
  with timeout 30; a run that returns has requested every URL of the list.
\<close>

theorem fetch_failure_skips_item:
  "(requests_get w hist url 30 = Inl exc \<longrightarrow> fetch w hist url = Inl exc)
   \<and> (requests_get w hist url 30 = Inr resp \<and> 400 \<le> status_code resp \<and> status_code resp < 600
        \<longrightarrow> fetch w hist url = Inl (HTTPError (status_code resp)))
   \<and> (fetch w hist url = Inl exc' \<longrightarrow>
        download_rates_loop w hist v cl ((date, url) # rest) has body =
          (case download_rates_loop w (hist @ [Get url 30]) v cl rest has body of
             (r, evs) \<Rightarrow> (r, Get url 30 # evs)))
   \<and> (\<exists>k. filter is_Get (snd (download_rates w hist url_list cl v))
             = map (\<lambda>(d, u). Get u 30) (take k url_list)
          \<and> (\<forall>r. fst (download_rates w hist url_list cl v) = Inr r \<longrightarrow> k = length url_list))"
  using fetch_fails [of w hist url exc resp]
    download_rates_loop_skip [of w hist url exc' v cl date rest has body]
    download_rates_loop_gets [of w hist v cl url_list False "header v"]
  unfolding download_rates_def by blast

theorem fetch_failure_skips_item_witness:
  "fetch example_world [] ''missing'' = Inl (HTTPError 404)
   \<and> download_rates_loop example_world [] 2 [''840'' \<mapsto> Date 2024 1 9]
        ((Date 2024 1 9, ''missing'') # [(Date 2024 1 10, ''cbr'')]) False (header 2)
      = (Inr (True, header 2 @ date_section (Date 2024 1 10) (''USD: 90,5000/1'' @ nl)),
         [Get ''missing'' 30, Get ''cbr'' 30,
          Execute (SaveRate 2 (Some ''840'') (Date 2024 1 10) (NominalText (Some ''1'')) (181 / 2)),
          Execute Commit])"
proof -
  let ?cl = "[''840'' \<mapsto> Date 2024 1 9]"
  have h: "fetch example_world [] ''missing'' = Inl (HTTPError 404)"
    by (simp add: fetch_def example_defs)
  have rest: "download_rates_loop example_world ([] @ [Get ''missing'' 30]) 2 ?cl
                [(Date 2024 1 10, ''cbr'')] False (header 2)
              = (Inr (True, header 2 @ date_section (Date 2024 1 10) (''USD: 90,5000/1'' @ nl)),
                 [Get ''cbr'' 30,
                  Execute (SaveRate 2 (Some ''840'') (Date 2024 1 10) (NominalText (Some ''1''))
                    (181 / 2)),
                  Execute Commit])"
    by (simp add: example_defs run_defs)
  from fetch_failure_skips_item
    [where w = example_world and hist = "[]" and url = "''missing''" and exc' = "HTTPError 404"
       and v = 2 and cl = ?cl and date = "Date 2024 1 9" and rest = "[(Date 2024 1 10, ''cbr'')]"
       and has = False and body = "header 2"] h
  have "download_rates_loop example_world [] 2 ?cl
          ((Date 2024 1 9, ''missing'') # [(Date 2024 1 10, ''cbr'')]) False (header 2) =
          (case download_rates_loop example_world ([] @ [Get ''missing'' 30]) 2 ?cl
                  [(Date 2024 1 10, ''cbr'')] False (header 2) of
             (r, evs) \<Rightarrow> (r, Get ''missing'' 30 # evs))"
    by blast
  with h rest show ?thesis by simp
qed

section \<open>A run with nothing new\<close>




section \<open>The report aggregator\<close>

text \<open>
  Claim C6. The email body is formed from the two per-source bodies in the fixed order
  Central Bank of Russia, then National Bank of Ukraine; only a body whose flag is set is
  included; two included bodies are separated by two newlines, that is a blank line; with
  no flag set the body is empty and no email is sent; with only the second flag set the
  body is exactly the second source's body, without a leading separator.
\<close>

theorem form_email_body_by_flags:
  "form_email_body False a False b = []
   \<and> \<not> sends_email (form_email_body False a False b)
   \<and> form_email_body True a False b = a
   \<and> form_email_body False a True b = b
   \<and> form_email_body True a True b = a @ [CHR 0x0A, CHR 0x0A] @ b"
  by (simp add: form_email_body_def sends_email_def nl_def)

section \<open>Saving a rate once\<close>




section \<open>The nominal of the National Bank of Ukraine\<close>

text \<open>
  Claim C8. For an id other than 2, every rate a run saves is saved with the integer
  nominal 1, and every line an entry adds to the report is the \<^verbatim>\<open>cc\<close> of the entry,
  a colon, the text of its \<^verbatim>\<open>rate\<close>, and \<^verbatim>\<open>/1\<close>.
\<close>

theorem nbu_nominal_is_one:
  assumes "v \<noteq> 2"
  shows "(Execute (SaveRate v' code d n f) \<in> set (snd (download_rates w hist url_list cl v))
            \<longrightarrow> n = NominalInt 1)
         \<and> (save_currency w h date xml_root v cl c = (Inr line, evs) \<longrightarrow>
              line = []
              \<or> (\<exists>cc rate. fill_crncy Map.empty (children c) ''cc'' = Some cc
                    \<and> fill_crncy Map.empty (children c) ''rate'' = Some (Some rate)
                    \<and> line = py_str cc @ '': '' @ rate @ ''/1'' @ [CHR 0x0A]))"
proof (intro conjI impI)
  assume "Execute (SaveRate v' code d n f) \<in> set (snd (download_rates w hist url_list cl v))"
  with download_rates_nbu_nominal[OF assms, of w hist url_list cl]
  show "n = NominalInt 1"
    unfolding list_all_iff by blast
next
  assume "save_currency w h date xml_root v cl c = (Inr line, evs)"
  with assms show "line = []
              \<or> (\<exists>cc rate. fill_crncy Map.empty (children c) ''cc'' = Some cc
                    \<and> fill_crncy Map.empty (children c) ''rate'' = Some (Some rate)
                    \<and> line = py_str cc @ '': '' @ rate @ ''/1'' @ [CHR 0x0A])"
    by (rule save_currency_nbu_line)
qed

theorem nbu_nominal_is_one_witness:
  "(8::int) \<noteq> 2
   \<and> Execute (SaveRate 8 (Some ''840'') (Date 2024 1 10) (NominalInt 1) (75 / 2))
       \<in> set (snd (download_rates example_world [] [(Date 2024 1 10, ''nbu'')]
                     [''840'' \<mapsto> Date 2024 1 9] 8))
   \<and> save_currency example_world [] (Date 2024 1 10) nbu_doc 8 [''840'' \<mapsto> Date 2024 1 9]
        usd_currency
      = (Inr (''USD: 37,5/1'' @ [CHR 0x0A]),
         [Execute (SaveRate 8 (Some ''840'') (Date 2024 1 10) (NominalInt 1) (75 / 2)),
          Execute Commit])
   \<and> (\<exists>cc rate. fill_crncy Map.empty (children usd_currency) ''cc'' = Some cc
         \<and> fill_crncy Map.empty (children usd_currency) ''rate'' = Some (Some rate)
         \<and> ''USD: 37,5/1'' @ [CHR 0x0A] = py_str cc @ '': '' @ rate @ ''/1'' @ [CHR 0x0A])"
proof -
  let ?cl = "[''840'' \<mapsto> Date 2024 1 9]"
  let ?st = "SaveRate 8 (Some ''840'') (Date 2024 1 10) (NominalInt 1) (75 / 2) :: rat stmt"
  have v: "(8::int) \<noteq> 2" by simp
  have run: "Execute ?st
       \<in> set (snd (download_rates example_world [] [(Date 2024 1 10, ''nbu'')] ?cl 8))"
    by (simp add: example_defs run_defs)
  have entry: "save_currency example_world [] (Date 2024 1 10) nbu_doc 8 ?cl usd_currency
      = (Inr (''USD: 37,5/1'' @ [CHR 0x0A]), [Execute ?st, Execute Commit])"
    by (simp add: example_defs run_defs)
  from nbu_nominal_is_one
    [where v = 8 and w = example_world and h = "[]" and date = "Date 2024 1 10"
       and xml_root = nbu_doc and cl = ?cl and c = usd_currency
       and line = "''USD: 37,5/1'' @ [CHR 0x0A]" and evs = "[Execute ?st, Execute Commit]", OF v]
    entry
  have "\<exists>cc rate. fill_crncy Map.empty (children usd_currency) ''cc'' = Some cc
         \<and> fill_crncy Map.empty (children usd_currency) ''rate'' = Some (Some rate)
         \<and> ''USD: 37,5/1'' @ [CHR 0x0A] = py_str cc @ '': '' @ rate @ ''/1'' @ [CHR 0x0A]"
    by simp
  with v run entry show ?thesis by blast
qed

section \<open>The header of a report body\<close>

text \<open>
  Claim C9. The body a run returns begins with the header of its source, which is one of
  two fixed non-empty texts ending in a blank line; a run that returns without having saved
  a rate returns the flag \<open>False\<close> and exactly that header; and the email body formed
  from two unflagged sources is empty although their bodies, the headers, are not.
\<close>

theorem report_body_starts_with_header:
  assumes "download_rates w hist url_list cl v = (Inr (has, body), evs)"
  shows "(\<exists>s. body = header v @ s)
         \<and> (saved_pairs evs = [] \<longrightarrow> \<not> has \<and> body = header v)
         \<and> header v = (if v = 2 then ''Downloaded exchange rates from CBR:'' @ [CHR 0x0A, CHR 0x0A]
                        else ''Downloaded exchange rates from NBU :'' @ [CHR 0x0A, CHR 0x0A])
         \<and> header v \<noteq> []
         \<and> form_email_body False (header 2) False (header v) = []"
proof -
  from download_rates_loop_body [OF assms [unfolded download_rates_def]]
  have "(\<exists>s. body = header v @ s)" "saved_pairs evs = [] \<longrightarrow> \<not> has \<and> body = header v"
    by auto
  moreover have "header v = (if v = 2 then ''Downloaded exchange rates from CBR:'' @ [CHR 0x0A, CHR 0x0A]
                        else ''Downloaded exchange rates from NBU :'' @ [CHR 0x0A, CHR 0x0A])"
    by (simp add: header_def nl_def)
  moreover have "header v \<noteq> []"
    by (simp add: header_def)
  moreover have "form_email_body False (header 2) False (header v) = []"
    by (simp add: form_email_body_def)
  ultimately show ?thesis by blast
qed

theorem report_body_starts_with_header_witness:
  "download_rates example_world [] [(Date 2024 1 10, ''missing'')] [''840'' \<mapsto> Date 2024 1 9] 8
     = (Inr (False, header 8), [Get ''missing'' 30])
   \<and> saved_pairs [Get ''missing'' 30 :: rat event] = []
   \<and> header 8 = ''Downloaded exchange rates from NBU :'' @ [CHR 0x0A, CHR 0x0A]
   \<and> header 8 \<noteq> []"
proof -
  have run: "download_rates example_world [] [(Date 2024 1 10, ''missing'')]
               [''840'' \<mapsto> Date 2024 1 9] 8
             = (Inr (False, header 8), [Get ''missing'' 30])"
    by (simp add: example_defs run_defs)
  from report_body_starts_with_header [OF run]
  have "header 8 = ''Downloaded exchange rates from NBU :'' @ [CHR 0x0A, CHR 0x0A]"
    "header 8 \<noteq> []"
    by simp_all
  with run show ?thesis by simp
qed

section \<open>Missing fields\<close>

text \<open>
  Claim C10. For well-formed documents, \<^verbatim>\<open>save_data\<close> raises \<^verbatim>\<open>KeyError\<close>,
  not \<^verbatim>\<open>ParseError\<close>, in each of these cases. For id 2, at an entry whose
  \<^verbatim>\<open>ID\<close> is in \<^verbatim>\<open>crncy_list\<close> with an earlier date: the root has no
  \<^verbatim>\<open>Date\<close> attribute; or the document carries the requested date and the entry has
  no \<^verbatim>\<open>Nominal\<close> child, or no \<^verbatim>\<open>Value\<close> child, or (after the rate has been
  saved and committed) no \<^verbatim>\<open>CharCode\<close> child. For another id: the entry has no
  \<^verbatim>\<open>r030\<close> child; or its \<^verbatim>\<open>r030\<close> is in \<^verbatim>\<open>crncy_list\<close> with an earlier
  date and it has no \<^verbatim>\<open>rate\<close> child, or (after the rate has been saved and
  committed) no \<^verbatim>\<open>cc\<close> child. The error of the first entry of a document is the
  error of \<^verbatim>\<open>save_data\<close>, and \<^verbatim>\<open>download_rates\<close> raises it without fetching
  the remaining work items.
\<close>

theorem missing_field_raises_KeyError:
  "(map_of (attrib c) ''ID'' = Some cid \<and> cl cid = Some last_date \<and> last_date < date \<longrightarrow>
      (map_of (attrib xml_root) ''Date'' = None \<longrightarrow>
         save_currency w h date xml_root 2 cl c = (Inl (KeyError ''Date''), []))
      \<and> (map_of (attrib xml_root) ''Date'' = Some ds \<and> strptime w ds = Some date \<longrightarrow>
          (''Nominal'' \<notin> tag ` set (children c) \<longrightarrow>
             save_currency w h date xml_root 2 cl c = (Inl (KeyError ''Nominal''), []))
          \<and> (''Nominal'' \<in> tag ` set (children c) \<and> ''Value'' \<notin> tag ` set (children c) \<longrightarrow>
               save_currency w h date xml_root 2 cl c = (Inl (KeyError ''Value''), []))
          \<and> (fill_crncy [''Identificator'' \<mapsto> Some cid] (children c) ''Identificator'' = Some ident
               \<and> fill_crncy [''Identificator'' \<mapsto> Some cid] (children c) ''Nominal'' = Some nom
               \<and> fill_crncy [''Identificator'' \<mapsto> Some cid] (children c) ''Value'' = Some (Some val)
               \<and> py_float w (replace_comma val) = Some f
               \<and> cur_execute w h (SaveRate 2 ident date (NominalText nom) f)
               \<and> cur_execute w (h @ [Execute (SaveRate 2 ident date (NominalText nom) f)]) Commit
               \<and> ''CharCode'' \<notin> tag ` set (children c) \<longrightarrow>
               save_currency w h date xml_root 2 cl c =
                 (Inl (KeyError ''CharCode''),
                  [Execute (SaveRate 2 ident date (NominalText nom) f), Execute Commit]))))
   \<and> (v \<noteq> 2 \<longrightarrow>
        (''r030'' \<notin> tag ` set (children c) \<longrightarrow>
           save_currency w h date xml_root v cl c = (Inl (KeyError ''r030''), []))
        \<and> (fill_crncy Map.empty (children c) ''r030'' = Some (Some code)
             \<and> cl code = Some last_date \<and> last_date < date \<longrightarrow>
            (''rate'' \<notin> tag ` set (children c) \<longrightarrow>
               save_currency w h date xml_root v cl c = (Inl (KeyError ''rate''), []))
            \<and> (fill_crncy Map.empty (children c) ''rate'' = Some (Some rate)
                 \<and> py_float w (replace_comma rate) = Some f
                 \<and> cur_execute w h (SaveRate v (Some code) date (NominalInt 1) f)
                 \<and> cur_execute w (h @ [Execute (SaveRate v (Some code) date (NominalInt 1) f)]) Commit
                 \<and> ''cc'' \<notin> tag ` set (children c) \<longrightarrow>
                 save_currency w h date xml_root v cl c =
                   (Inl (KeyError ''cc''),
                    [Execute (SaveRate v (Some code) date (NominalInt 1) f), Execute Commit]))))
   \<and> (ET_fromstring w (resp_text resp) = Some xml_root \<and> children xml_root = c # cs
        \<and> save_currency w h date xml_root v cl c = (Inl e, evs) \<longrightarrow>
        save_data w h date resp v cl = (Inl e, evs))
   \<and> (fetch w hist url = Inr resp \<and> save_data w (hist @ [Get url 30]) date resp v cl = (Inl e, evs)
        \<longrightarrow> download_rates_loop w hist v cl ((date, url) # rest) has body
              = (Inl e, Get url 30 # evs))"
proof (intro conjI impI; (elim conjE)?)
  assume "map_of (attrib c) ''ID'' = Some cid" "cl cid = Some last_date" "last_date < date"
    "map_of (attrib xml_root) ''Date'' = None"
  then show "save_currency w h date xml_root 2 cl c = (Inl (KeyError ''Date''), [])"
    by (rule cbr_missing_Date [where cl = cl])
next
  assume a: "map_of (attrib c) ''ID'' = Some cid" "cl cid = Some last_date" "last_date < date"
    "map_of (attrib xml_root) ''Date'' = Some ds" "strptime w ds = Some date"
  assume "''Nominal'' \<notin> tag ` set (children c)"
  then show "save_currency w h date xml_root 2 cl c = (Inl (KeyError ''Nominal''), [])"
    unfolding cbr_passes_filter [where cl = cl, OF a] by (rule persist_cbr_missing_Nominal)
next
  assume a: "map_of (attrib c) ''ID'' = Some cid" "cl cid = Some last_date" "last_date < date"
    "map_of (attrib xml_root) ''Date'' = Some ds" "strptime w ds = Some date"
  assume "''Nominal'' \<in> tag ` set (children c)" "''Value'' \<notin> tag ` set (children c)"
  then show "save_currency w h date xml_root 2 cl c = (Inl (KeyError ''Value''), [])"
    unfolding cbr_passes_filter [where cl = cl, OF a] by (rule persist_cbr_missing_Value)
next
  assume a: "map_of (attrib c) ''ID'' = Some cid" "cl cid = Some last_date" "last_date < date"
    "map_of (attrib xml_root) ''Date'' = Some ds" "strptime w ds = Some date"
  assume "fill_crncy [''Identificator'' \<mapsto> Some cid] (children c) ''Identificator'' = Some ident"
    "fill_crncy [''Identificator'' \<mapsto> Some cid] (children c) ''Nominal'' = Some nom"
    "fill_crncy [''Identificator'' \<mapsto> Some cid] (children c) ''Value'' = Some (Some val)"
    "py_float w (replace_comma val) = Some f"
    "cur_execute w h (SaveRate 2 ident date (NominalText nom) f)"
    "cur_execute w (h @ [Execute (SaveRate 2 ident date (NominalText nom) f)]) Commit"
    "''CharCode'' \<notin> tag ` set (children c)"
  then show "save_currency w h date xml_root 2 cl c =
               (Inl (KeyError ''CharCode''),
                [Execute (SaveRate 2 ident date (NominalText nom) f), Execute Commit])"
    unfolding cbr_passes_filter [where cl = cl, OF a] by (rule persist_cbr_missing_CharCode)
next
  assume "v \<noteq> 2" "''r030'' \<notin> tag ` set (children c)"
  then show "save_currency w h date xml_root v cl c = (Inl (KeyError ''r030''), [])"
    by (rule nbu_missing_r030)
next
  assume a: "v \<noteq> 2" "fill_crncy Map.empty (children c) ''r030'' = Some (Some code)"
    "cl code = Some last_date" "last_date < date"
  assume "''rate'' \<notin> tag ` set (children c)"
  then show "save_currency w h date xml_root v cl c = (Inl (KeyError ''rate''), [])"
    unfolding nbu_passes_filter [where cl = cl, OF a] by (rule persist_nbu_missing_rate)
next
  assume a: "v \<noteq> 2" "fill_crncy Map.empty (children c) ''r030'' = Some (Some code)"
    "cl code = Some last_date" "last_date < date"
  assume "fill_crncy Map.empty (children c) ''rate'' = Some (Some rate)"
    "py_float w (replace_comma rate) = Some f"
    "cur_execute w h (SaveRate v (Some code) date (NominalInt 1) f)"
    "cur_execute w (h @ [Execute (SaveRate v (Some code) date (NominalInt 1) f)]) Commit"
    "''cc'' \<notin> tag ` set (children c)"
  then show "save_currency w h date xml_root v cl c =
               (Inl (KeyError ''cc''),
                [Execute (SaveRate v (Some code) date (NominalInt 1) f), Execute Commit])"
    unfolding nbu_passes_filter [where cl = cl, OF a] by (rule persist_nbu_missing_cc)
next
  assume "ET_fromstring w (resp_text resp) = Some xml_root" "children xml_root = c # cs"
    "save_currency w h date xml_root v cl c = (Inl e, evs)"
  then show "save_data w h date resp v cl = (Inl e, evs)"
    by (rule save_data_raise)
next
  assume "fetch w hist url = Inr resp"
    "save_data w (hist @ [Get url 30]) date resp v cl = (Inl e, evs)"
  then show "download_rates_loop w hist v cl ((date, url) # rest) has body
              = (Inl e, Get url 30 # evs)"
    by (rule download_rates_loop_raise_first)
qed

theorem missing_field_raises_KeyError_witness:
  "(8::int) \<noteq> 2
   \<and> ''r030'' \<notin> tag ` set (children no_code_currency)
   \<and> save_currency example_world [Get ''nocode'' 30] (Date 2024 1 10) no_code_doc 8
        [''840'' \<mapsto> Date 2024 1 9] no_code_currency
      = (Inl (KeyError ''r030''), [])
   \<and> download_rates_loop example_world [] 8 [''840'' \<mapsto> Date 2024 1 9]
        [(Date 2024 1 10, ''nocode''), (Date 2024 1 11, ''nbu'')] False (header 8)
      = (Inl (KeyError ''r030''), [Get ''nocode'' 30])
   \<and> ''CharCode'' \<notin> tag ` set (children no_charcode_valute)
   \<and> save_currency example_world [] (Date 2024 1 10) cbr_doc 2
        [''840'' \<mapsto> Date 2024 1 9] no_charcode_valute
      = (Inl (KeyError ''CharCode''),
         [Execute (SaveRate 2 (Some ''840'') (Date 2024 1 10) (NominalText (Some ''1'')) (181 / 2)),
          Execute Commit])"
proof -
  let ?cl = "[''840'' \<mapsto> Date 2024 1 9]"
  let ?resp = "\<lparr>status_code = 200, resp_text = ''<nocode>''\<rparr>"
  let ?st = "SaveRate 2 (Some ''840'') (Date 2024 1 10) (NominalText (Some ''1'')) (181 / 2)
               :: rat stmt"
  let ?crncy = "fill_crncy [''Identificator'' \<mapsto> Some ''840''] (children no_charcode_valute)"
  note T = missing_field_raises_KeyError
    [where w = example_world and v = 8 and c = no_code_currency
       and h = "[] @ [Get ''nocode'' 30]" and hist = "[]" and date = "Date 2024 1 10"
       and xml_root = no_code_doc and cl = ?cl and resp = ?resp and cs = "[]"
       and e = "KeyError ''r030''" and evs = "[]" and url = "''nocode''"
       and rest = "[(Date 2024 1 11, ''nbu'')]" and has = False and body = "header 8"]
  have v: "(8::int) \<noteq> 2" by simp
  have absent: "''r030'' \<notin> tag ` set (children no_code_currency)"
    by (simp add: example_defs)
  have parsed: "ET_fromstring example_world (resp_text ?resp) = Some no_code_doc"
    by (simp add: example_defs)
  have entries: "children no_code_doc = no_code_currency # []"
    by (simp add: example_defs)
  have fetched: "fetch example_world [] ''nocode'' = Inr ?resp"
    by (simp add: fetch_def example_defs)
  from T v absent
  have 1: "save_currency example_world ([] @ [Get ''nocode'' 30]) (Date 2024 1 10) no_code_doc 8
             ?cl no_code_currency = (Inl (KeyError ''r030''), [])"
    by blast
  with T parsed entries
  have 2: "save_data example_world ([] @ [Get ''nocode'' 30]) (Date 2024 1 10) ?resp 8 ?cl
             = (Inl (KeyError ''r030''), [])"
    by blast
  with T fetched
  have 3: "download_rates_loop example_world [] 8 ?cl
             ((Date 2024 1 10, ''nocode'') # [(Date 2024 1 11, ''nbu'')]) False (header 8)
           = (Inl (KeyError ''r030''), Get ''nocode'' 30 # [])"
    by blast
  note U = missing_field_raises_KeyError
    [where w = example_world and c = no_charcode_valute and cid = "''840''" and cl = ?cl
       and last_date = "Date 2024 1 9" and date = "Date 2024 1 10" and xml_root = cbr_doc
       and ds = "''10.01.2024''" and h = "[]" and ident = "Some ''840''" and nom = "Some ''1''"
       and val = "''90,5000''" and f = "181 / 2"]
  have a1: "map_of (attrib no_charcode_valute) ''ID'' = Some ''840''"
    and a2: "?cl ''840'' = Some (Date 2024 1 9)"
    and a3: "Date 2024 1 9 < Date 2024 1 10"
    and a4: "map_of (attrib cbr_doc) ''Date'' = Some ''10.01.2024''"
    and a5: "strptime example_world ''10.01.2024'' = Some (Date 2024 1 10)"
    by (simp_all add: example_defs less_date_def)
  have b1: "?crncy ''Identificator'' = Some (Some ''840'')"
    and b2: "?crncy ''Nominal'' = Some (Some ''1'')"
    and b3: "?crncy ''Value'' = Some (Some ''90,5000'')"
    and b4: "py_float example_world (replace_comma ''90,5000'') = Some (181 / 2)"
    and b5: "cur_execute example_world [] ?st"
    and b6: "cur_execute example_world ([] @ [Execute ?st]) Commit"
    and b7: "''CharCode'' \<notin> tag ` set (children no_charcode_valute)"
    by (simp_all add: example_defs fill_crncy_def replace_comma_def)
  from U a1 a2 a3 a4 a5 b1 b2 b3 b4 b5 b6 b7
  have 4: "save_currency example_world [] (Date 2024 1 10) cbr_doc 2 ?cl no_charcode_valute
             = (Inl (KeyError ''CharCode''), [Execute ?st, Execute Commit])"
    by blast
  from v absent 1 3 b7 4 show ?thesis by simp
qed

end
